theory Spec2Isabelle
  imports Main "HOL-Library.AList"
begin

section \<open>Python values and exceptions\<close>

text \<open>
  The validators of \<^verbatim>\<open>evm_trace/parity.py\<close> run in pydantic's \<^verbatim>\<open>mode="before"\<close>: they
  receive the raw value of the field, of any type.  The raw values modelled are the ones
  a decoded JSON document holds: text, integers, floats, booleans, \<^verbatim>\<open>None\<close>, lists and
  dictionaries.  Text is a list of characters with code points below 256
  (\<^typ>\<open>string\<close>).
\<close>

text \<open>
  A float is a finite value, an infinity or not-a-number.  Every finite float is
  \<open>m \<cdot> 2\<^sup>e\<close> for two integers \<open>m\<close> and \<open>e\<close>, and \<open>Finite m e\<close> stands for it; the flag of
  an infinity says whether it is the negative one.
\<close>

datatype pyfloat = Finite int int | Infinity bool | NaN

datatype raw =
    RStr string
  | RInt int
  | RFloat pyfloat
  | RBool bool
  | RNone
  | RList "raw list"
  | RDict "(string \<times> raw) list"

text \<open>The exceptions the modelled code raises.\<close>

datatype exn = ValueError | TypeError | OverflowError | AttributeError | IndexError

section \<open>The builtin \<^verbatim>\<open>int\<close>\<close>

text \<open>
  The white space that \<^verbatim>\<open>int\<close> skips around a numeral given as text: tab, line feed,
  vertical tab, form feed, carriage return and space, and, of the characters from 128
  to 255, next line (U+0085) and no-break space (U+00A0).  The separators U+001C to
  U+001F are not skipped.
\<close>

definition py_isspace :: "char \<Rightarrow> bool" where
  "py_isspace c \<longleftrightarrow>
     c \<in> {CHR 0x09, CHR 0x0A, CHR 0x0B, CHR 0x0C, CHR 0x0D, CHR '' '', CHR 0x85, CHR 0xA0}"

text \<open>The value of a character as a base-16 digit, if it is one.\<close>

definition hex_digit :: "char \<Rightarrow> int option" where
  "hex_digit c =
     (let n = (of_char c :: nat) in
      if 48 \<le> n \<and> n \<le> 57 then Some (int n - 48)
      else if 97 \<le> n \<and> n \<le> 102 then Some (int n - 87)
      else if 65 \<le> n \<and> n \<le> 70 then Some (int n - 55)
      else None)"

text \<open>
  The digit loop of \<^verbatim>\<open>int(text, 16)\<close>: digits are accumulated most significant first,
  single underscores may separate digits, two underscores in a row or an underscore at
  the end of the digits are refused (\<open>None\<close>).  The loop stops at the first character
  that is neither, and returns the value read, the number of digits and the text left.
  The flag says whether the previous character was an underscore.
\<close>

fun scan_digits :: "bool \<Rightarrow> int \<Rightarrow> nat \<Rightarrow> string \<Rightarrow> (int \<times> nat \<times> string) option" where
  "scan_digits prev_us acc n [] = (if prev_us then None else Some (acc, n, []))"
| "scan_digits prev_us acc n (c # cs) =
     (if c = CHR ''_'' then (if prev_us then None else scan_digits True acc n cs)
      else (case hex_digit c of
              Some d \<Rightarrow> scan_digits False (acc * 16 + d) (Suc n) cs
            | None \<Rightarrow> (if prev_us then None else Some (acc, n, c # cs))))"

text \<open>The optional sign in front of the numeral.\<close>

fun split_sign :: "string \<Rightarrow> int \<times> string" where
  "split_sign (c # cs) =
     (if c = CHR ''+'' then (1, cs) else if c = CHR ''-'' then (- 1, cs) else (1, c # cs))"
| "split_sign [] = (1, [])"

text \<open>
  The optional base marker \<^verbatim>\<open>0x\<close> or \<^verbatim>\<open>0X\<close>, after which one underscore is allowed.
\<close>

fun skip_prefix :: "string \<Rightarrow> string" where
  "skip_prefix (a # b # cs) =
     (if a = CHR ''0'' \<and> (b = CHR ''x'' \<or> b = CHR ''X'')
      then (case cs of [] \<Rightarrow> [] | d # ds \<Rightarrow> if d = CHR ''_'' then ds else d # ds)
      else a # b # cs)"
| "skip_prefix cs = cs"

text \<open>
  \<^verbatim>\<open>int(text, 16)\<close>: leading white space, sign, base marker, digits, trailing white
  space, and nothing else.  A text with no digit, with an underscore in front of the
  digits, or with anything left over raises \<^verbatim>\<open>ValueError\<close>.
\<close>

definition int16_str :: "string \<Rightarrow> exn + int" where
  "int16_str s =
     (let (sign, s2) = split_sign (dropWhile py_isspace s);
          s3 = skip_prefix s2
      in if s3 \<noteq> [] \<and> hd s3 = CHR ''_'' then Inl ValueError
         else (case scan_digits False 0 0 s3 of
                 None \<Rightarrow> Inl ValueError
               | Some (v, n, rest) \<Rightarrow>
                   if n = 0 then Inl ValueError
                   else if dropWhile py_isspace rest \<noteq> [] then Inl ValueError
                   else Inr (sign * v)))"

text \<open>
  \<^verbatim>\<open>int(v, 16)\<close> on a raw value: with an explicit base, anything that is not text raises
  \<^verbatim>\<open>TypeError\<close>.
\<close>

fun int16 :: "raw \<Rightarrow> exn + int" where
  "int16 (RStr s) = int16_str s"
| "int16 _ = Inl TypeError"

text \<open>
  \<^verbatim>\<open>int(f)\<close> on a float: a finite float is truncated towards zero, an infinity raises
  \<^verbatim>\<open>OverflowError\<close>, not-a-number raises \<^verbatim>\<open>ValueError\<close>.
\<close>

definition float_trunc :: "int \<Rightarrow> int \<Rightarrow> int" where
  "float_trunc m e =
     (if 0 \<le> e then m * 2 ^ nat e else sgn m * (\<bar>m\<bar> div 2 ^ nat (- e)))"

fun int_float :: "pyfloat \<Rightarrow> exn + int" where
  "int_float (Finite m e) = Inr (float_trunc m e)"
| "int_float (Infinity negative) = Inl OverflowError"
| "int_float NaN = Inl ValueError"

text \<open>
  \<^verbatim>\<open>int(v)\<close> on a raw value that is not text: an integer is returned as it is, a float
  is truncated, a boolean is 0 or 1, anything else raises \<^verbatim>\<open>TypeError\<close>.
\<close>

fun int_native :: "raw \<Rightarrow> exn + int" where
  "int_native (RInt i) = Inr i"
| "int_native (RFloat f) = int_float f"
| "int_native (RBool b) = Inr (if b then 1 else 0)"
| "int_native _ = Inl TypeError"

text \<open>\<^verbatim>\<open>isinstance(v, str)\<close>\<close>

fun isinstance_str :: "raw \<Rightarrow> bool" where
  "isinstance_str (RStr _) = True"
| "isinstance_str _ = False"

section \<open>The numeric validators\<close>

text \<open>\<^verbatim>\<open>CallAction.convert_integer\<close>, for the fields \<^verbatim>\<open>value\<close> and \<^verbatim>\<open>gas\<close>.\<close>

definition CallAction_convert_integer :: "raw \<Rightarrow> exn + int" where
  "CallAction_convert_integer v = int16 v"

text \<open>\<^verbatim>\<open>CreateAction.convert_integer\<close>, for the fields \<^verbatim>\<open>value\<close> and \<^verbatim>\<open>gas\<close>.\<close>

definition CreateAction_convert_integer :: "raw \<Rightarrow> exn + int" where
  "CreateAction_convert_integer v = int16 v"

text \<open>\<^verbatim>\<open>SelfDestructAction.convert_integer\<close>, for the field \<^verbatim>\<open>balance\<close>.\<close>

definition SelfDestructAction_convert_integer :: "raw \<Rightarrow> exn + int" where
  "SelfDestructAction_convert_integer v = (if isinstance_str v then int16 v else int_native v)"

text \<open>\<^verbatim>\<open>ActionResult.convert_integer\<close>, for the field \<^verbatim>\<open>gas_used\<close>.\<close>

definition ActionResult_convert_integer :: "raw \<Rightarrow> exn + int" where
  "ActionResult_convert_integer v = (if isinstance_str v then int16 v else int_native v)"

text \<open>
  The number that a text of base-16 digits denotes, most significant digit first.
\<close>

definition is_hex_digit :: "char \<Rightarrow> bool" where
  "is_hex_digit c \<longleftrightarrow> hex_digit c \<noteq> None"

definition hex_value :: "string \<Rightarrow> int" where
  "hex_value s = foldl (\<lambda>acc c. acc * 16 + (case hex_digit c of Some d \<Rightarrow> d | None \<Rightarrow> 0)) 0 s"

text \<open>
  The grammar of a base-16 numeral given as text, as \<^verbatim>\<open>int(text, 16)\<close> accepts it: white
  space at both ends, then an optional sign, then an optional marker \<^verbatim>\<open>0x\<close> or \<^verbatim>\<open>0X\<close>
  that one underscore may follow, then one or more base-16 digits, with single
  underscores allowed between two digits.
\<close>

definition rstrip :: "string \<Rightarrow> string" where
  "rstrip s = rev (dropWhile py_isspace (rev s))"

definition strip :: "string \<Rightarrow> string" where
  "strip s = rstrip (dropWhile py_isspace s)"

definition unsigned :: "string \<Rightarrow> string" where
  "unsigned s = (if take 1 s = ''+'' \<or> take 1 s = ''-'' then drop 1 s else s)"

definition unmarked :: "string \<Rightarrow> string" where
  "unmarked s =
     (if take 2 s = ''0x'' \<or> take 2 s = ''0X''
      then (if take 1 (drop 2 s) = ''_'' then drop 3 s else drop 2 s)
      else s)"

fun digit_groups :: "string \<Rightarrow> bool" where
  "digit_groups [] = False"
| "digit_groups [c] = is_hex_digit c"
| "digit_groups (c # d # cs) =
     (is_hex_digit c \<and> (if d = CHR ''_'' then digit_groups cs else digit_groups (d # cs)))"

definition numeral_body :: "string \<Rightarrow> string" where
  "numeral_body s = unmarked (unsigned (strip s))"

definition is_hex_numeral :: "string \<Rightarrow> bool" where
  "is_hex_numeral s \<longleftrightarrow> digit_groups (numeral_body s)"

text \<open>
  The number that a base-16 numeral denotes: its digits read in base 16, negated when
  the sign is the minus sign.
\<close>

definition numeral_value :: "string \<Rightarrow> int" where
  "numeral_value s =
     (if take 1 (strip s) = ''-'' then - 1 else 1)
     * hex_value (filter (\<lambda>c. c \<noteq> CHR ''_'') (numeral_body s))"

text \<open>
  Two notions for the proofs about the digit loop: what may follow a digit in a numeral
  (nothing, or an underscore and more digit groups, or more digit groups), and the
  outcome of the digit loop as \<^verbatim>\<open>int\<close> judges it (at least one digit, and only white
  space left).
\<close>

definition tail_groups :: "string \<Rightarrow> bool" where
  "tail_groups r =
     (case r of
        [] \<Rightarrow> True
      | c # cs \<Rightarrow> if c = CHR ''_'' then digit_groups cs else digit_groups (c # cs))"

definition scan_result :: "(int \<times> nat \<times> string) option \<Rightarrow> int option" where
  "scan_result r =
     (case r of
        None \<Rightarrow> None
      | Some (v, m, rest) \<Rightarrow>
          if m = 0 \<or> dropWhile py_isspace rest \<noteq> [] then None else Some v)"

text \<open>
  A raw value that denotes a negative number: a text whose first character after the
  leading white space is the minus sign, a negative integer, or a negative float.
\<close>

fun denotes_negative :: "raw \<Rightarrow> bool" where
  "denotes_negative (RStr s) =
     (case dropWhile py_isspace s of [] \<Rightarrow> False | c # _ \<Rightarrow> c = CHR ''-'')"
| "denotes_negative (RInt i) = (i < 0)"
| "denotes_negative (RFloat (Finite m e)) = (m < 0)"
| "denotes_negative (RFloat (Infinity negative)) = negative"
| "denotes_negative _ = False"

section \<open>Operation kinds\<close>

text \<open>
  Modelled from the spec: the enumeration \<^verbatim>\<open>evm_trace.enums.CallType\<close> is not part of the
  source at hand.  The spec gives it as a closed set of upper-case tags that holds at
  least CALL, DELEGATECALL, STATICCALL, CALLCODE, CREATE and SELFDESTRUCT.  The six named
  members are constructors; any further member is \<open>OTHER tag\<close>, and the list of the
  further members' tags is a parameter of the lookup.
\<close>

datatype CallType = CALL | DELEGATECALL | STATICCALL | CALLCODE | CREATE | SELFDESTRUCT
  | OTHER string

text \<open>
  Modelled from the spec: \<^verbatim>\<open>CallType(value)\<close>, the lookup of a member by its tag, which
  raises \<^verbatim>\<open>ValueError\<close> for a tag that no member has.
\<close>

definition CallType_of :: "string list \<Rightarrow> string \<Rightarrow> exn + CallType" where
  "CallType_of others v =
     (if v = ''CALL'' then Inr CALL
      else if v = ''DELEGATECALL'' then Inr DELEGATECALL
      else if v = ''STATICCALL'' then Inr STATICCALL
      else if v = ''CALLCODE'' then Inr CALLCODE
      else if v = ''CREATE'' then Inr CREATE
      else if v = ''SELFDESTRUCT'' then Inr SELFDESTRUCT
      else if v \<in> set others then Inr (OTHER v)
      else Inl ValueError)"

text \<open>
  Modelled from the spec: the tags of the members of the enumeration, the six named ones
  and the further ones.
\<close>

definition CallType_tags :: "string list \<Rightarrow> string list" where
  "CallType_tags others =
     [''CALL'', ''DELEGATECALL'', ''STATICCALL'', ''CALLCODE'', ''CREATE'', ''SELFDESTRUCT'']
     @ others"

text \<open>Modelled from the spec: the tag of a member of the enumeration.\<close>

fun tag_of :: "CallType \<Rightarrow> string" where
  "tag_of CALL = ''CALL''"
| "tag_of DELEGATECALL = ''DELEGATECALL''"
| "tag_of STATICCALL = ''STATICCALL''"
| "tag_of CALLCODE = ''CALLCODE''"
| "tag_of CREATE = ''CREATE''"
| "tag_of SELFDESTRUCT = ''SELFDESTRUCT''"
| "tag_of (OTHER t) = t"

text \<open>\<^verbatim>\<open>str.upper\<close> on ASCII text: the letters a to z are replaced, nothing else is.\<close>

definition upper_char :: "char \<Rightarrow> char" where
  "upper_char c =
     (case map_of (zip ''abcdefghijklmnopqrstuvwxyz'' ''ABCDEFGHIJKLMNOPQRSTUVWXYZ'') c of
        Some u \<Rightarrow> u
      | None \<Rightarrow> c)"

definition upper :: "string \<Rightarrow> string" where
  "upper s = map upper_char s"

section \<open>Decoded records\<close>

text \<open>
  The three action classes and the union \<^verbatim>\<open>ParityTraceAction\<close>.  The arguments of a
  constructor are the fields of the class, in the order of the class body:
  \<^item> \<open>CreateAction gas init value\<close>;
  \<^item> \<open>CallAction gas input receiver sender value call_type\<close>;
  \<^item> \<open>SelfDestructAction address balance\<close>.
\<close>

datatype ParityTraceAction =
    CreateAction int string int
  | CallAction int "string option" "string option" string int string
  | SelfDestructAction string int

text \<open>
  The two result classes and the union \<^verbatim>\<open>ParityTraceResult\<close>:
  \<open>CallResult gas_used output\<close> and \<open>CreateResult gas_used address code\<close>.
\<close>

datatype ParityTraceResult =
    CallResult int string
  | CreateResult int string string

record ParityTrace =
  error :: "string option"
  action :: ParityTraceAction
  block_hash :: string
  call_type :: CallType
  result :: "ParityTraceResult option"
  subtraces :: int
  trace_address :: "int list"
  transaction_hash :: string

text \<open>
  Attribute access.  \<^verbatim>\<open>cast\<close> does nothing at run time, so reading a field that the
  object's class does not have raises \<^verbatim>\<open>AttributeError\<close>.
\<close>

fun action_value :: "ParityTraceAction \<Rightarrow> exn + int" where
  "action_value (CreateAction g i v) = Inr v"
| "action_value (CallAction g i r s v c) = Inr v"
| "action_value (SelfDestructAction a b) = Inl AttributeError"

fun action_gas :: "ParityTraceAction \<Rightarrow> exn + int" where
  "action_gas (CreateAction g i v) = Inr g"
| "action_gas (CallAction g i r s v c) = Inr g"
| "action_gas (SelfDestructAction a b) = Inl AttributeError"

fun action_init :: "ParityTraceAction \<Rightarrow> exn + string" where
  "action_init (CreateAction g i v) = Inr i"
| "action_init (CallAction g i r s v c) = Inl AttributeError"
| "action_init (SelfDestructAction a b) = Inl AttributeError"

fun action_receiver :: "ParityTraceAction \<Rightarrow> exn + string option" where
  "action_receiver (CreateAction g i v) = Inl AttributeError"
| "action_receiver (CallAction g i r s v c) = Inr r"
| "action_receiver (SelfDestructAction a b) = Inl AttributeError"

fun action_input :: "ParityTraceAction \<Rightarrow> exn + string option" where
  "action_input (CreateAction g i v) = Inl AttributeError"
| "action_input (CallAction g i r s v c) = Inr i"
| "action_input (SelfDestructAction a b) = Inl AttributeError"

fun action_address :: "ParityTraceAction \<Rightarrow> exn + string" where
  "action_address (CreateAction g i v) = Inl AttributeError"
| "action_address (CallAction g i r s v c) = Inl AttributeError"
| "action_address (SelfDestructAction a b) = Inr a"

fun result_gas_used :: "ParityTraceResult \<Rightarrow> exn + int" where
  "result_gas_used (CallResult g out) = Inr g"
| "result_gas_used (CreateResult g a c) = Inr g"

fun result_output :: "ParityTraceResult \<Rightarrow> exn + string" where
  "result_output (CallResult g out) = Inr out"
| "result_output (CreateResult g a c) = Inl AttributeError"

fun result_address :: "ParityTraceResult \<Rightarrow> exn + string" where
  "result_address (CallResult g out) = Inl AttributeError"
| "result_address (CreateResult g a c) = Inr a"

section \<open>The kind validator\<close>

text \<open>
  \<^verbatim>\<open>ParityTrace.convert_call_type\<close>.  The arguments are the members of the enumeration
  other than the six named ones, the raw value of the record's \<^verbatim>\<open>type\<close> field and the
  decoded action (\<^verbatim>\<open>info.data["action"]\<close>).  \<^verbatim>\<open>value.upper()\<close> on a value that is not text
  raises \<^verbatim>\<open>AttributeError\<close>.
\<close>

definition convert_call_type :: "string list \<Rightarrow> raw \<Rightarrow> ParityTraceAction \<Rightarrow> exn + CallType" where
  "convert_call_type others value0 act =
     (let value1 = (case act of CallAction g i r s v c \<Rightarrow> RStr c | _ \<Rightarrow> value0)
      in case value1 of
           RStr s \<Rightarrow>
             (let value2 = upper s;
                  value3 = (if value2 = ''SUICIDE'' then ''SELFDESTRUCT'' else value2)
              in CallType_of others value3)
         | _ \<Rightarrow> Inl AttributeError)"

text \<open>
  The kind normalization in the words of the specification: upper-case the raw tag, apply
  the alias, and refuse a tag that is not a member of the enumeration.
\<close>

definition normalize_kind_spec :: "string list \<Rightarrow> string \<Rightarrow> exn + CallType" where
  "normalize_kind_spec others tag =
     (let t = (if upper tag = ''SUICIDE'' then ''SELFDESTRUCT'' else upper tag)
      in if t \<in> set (CallType_tags others) then CallType_of others t else Inl ValueError)"

section \<open>The output tree\<close>

text \<open>
  Modelled from the spec: the output node type \<^verbatim>\<open>evm_trace.base.CallTreeNode\<close> and its
  \<^verbatim>\<open>model_validate\<close> are not part of the source at hand.  The spec gives the node as a
  holder of the fields it is built from (kind, failed flag, kind-dependent fields and the
  ordered child nodes), so a node is the dictionary of field values handed to
  \<^verbatim>\<open>model_validate\<close>.  A dictionary is an association list with distinct keys in
  insertion order; a field that was not handed over has no entry.
\<close>

datatype pyval =
    PyNone
  | PyBool bool
  | PyInt int
  | PyStr string
  | PyKind CallType
  | PyNodes "CallTreeNode list"
and CallTreeNode = CallTreeNode "(string \<times> pyval) list"

type_synonym kwargs = "(string \<times> pyval) list"

text \<open>The fields of a node, and the lookup of one field.\<close>

fun fields_of :: "CallTreeNode \<Rightarrow> kwargs" where
  "fields_of (CallTreeNode kw) = kw"

definition field :: "CallTreeNode \<Rightarrow> string \<Rightarrow> pyval option" where
  "field node k = map_of (fields_of node) k"

text \<open>
  \<^verbatim>\<open>d.update(**kw)\<close> and \<^verbatim>\<open>{**d, **kw}\<close>: the entries of \<open>kw\<close> are stored one after the
  other; a key that is present keeps its place and takes the new value, a new key goes to
  the end.
\<close>

definition dict_update :: "kwargs \<Rightarrow> kwargs \<Rightarrow> kwargs" where
  "dict_update d kw = fold (\<lambda>(k, v). AList.update k v) kw d"

text \<open>An optional text as a value: \<^verbatim>\<open>None\<close> or the text.\<close>

fun py_opt_str :: "string option \<Rightarrow> pyval" where
  "py_opt_str None = PyNone"
| "py_opt_str (Some s) = PyStr s"

text \<open>Sequencing of computations that may raise.\<close>

definition ebind :: "exn + 'a \<Rightarrow> ('a \<Rightarrow> exn + 'b) \<Rightarrow> exn + 'b" where
  "ebind m f = (case m of Inl e \<Rightarrow> Inl e | Inr x \<Rightarrow> f x)"

text \<open>
  A list of results, evaluated from left to right: the first exception is raised,
  otherwise the list of values is returned.
\<close>

fun sequence_exn :: "(exn + 'a) list \<Rightarrow> exn + 'a list" where
  "sequence_exn [] = Inr []"
| "sequence_exn (x # xs) =
     (case x of
        Inl e \<Rightarrow> Inl e
      | Inr y \<Rightarrow> (case sequence_exn xs of Inl e \<Rightarrow> Inl e | Inr ys \<Rightarrow> Inr (y # ys)))"

section \<open>The tree assembler\<close>

text \<open>
  Lines 135 to 182 of \<^verbatim>\<open>get_calltree_from_parity_trace\<close>: the dictionary \<^verbatim>\<open>node_kwargs\<close>
  before the children are added.
\<close>

definition node_kwargs_of :: "ParityTrace \<Rightarrow> exn + kwargs" where
  "node_kwargs_of root =
     (let failed = (error root \<noteq> None);
          node_kwargs = [(''call_type'', PyKind (call_type root)), (''failed'', PyBool failed)]
      in if call_type root = CREATE then
           ebind (action_value (action root)) (\<lambda>v.
           ebind (action_gas (action root)) (\<lambda>g.
           ebind (action_init (action root)) (\<lambda>i.
             let node_kwargs = dict_update node_kwargs
                   [(''value'', PyInt v), (''gas_limit'', PyInt g), (''calldata'', PyStr i)]
             in (case result root of
                   None \<Rightarrow> Inr node_kwargs
                 | Some create_result \<Rightarrow>
                     ebind (result_gas_used create_result) (\<lambda>gu.
                     ebind (result_address create_result) (\<lambda>a.
                       Inr (dict_update node_kwargs
                              [(''gas_cost'', PyInt gu), (''address'', PyStr a)])))))))
         else if call_type root \<in> {CALL, DELEGATECALL, STATICCALL, CALLCODE} then
           ebind (action_receiver (action root)) (\<lambda>r.
           ebind (action_value (action root)) (\<lambda>v.
           ebind (action_gas (action root)) (\<lambda>g.
           ebind (action_input (action root)) (\<lambda>i.
             let node_kwargs = dict_update node_kwargs
                   [(''address'', py_opt_str r), (''value'', PyInt v),
                    (''gas_limit'', PyInt g), (''calldata'', py_opt_str i)]
             in (case result root of
                   None \<Rightarrow> Inr node_kwargs
                 | Some call_result \<Rightarrow>
                     ebind (result_gas_used call_result) (\<lambda>gu.
                     ebind (result_output call_result) (\<lambda>out.
                       Inr (dict_update node_kwargs
                              [(''gas_cost'', PyInt gu), (''returndata'', PyStr out)]))))))))
         else if call_type root = SELFDESTRUCT then
           ebind (action_address (action root)) (\<lambda>a.
             Inr (dict_update node_kwargs [(''address'', PyStr a)]))
         else Inr node_kwargs)"

text \<open>
  Lines 184 to 190: the records of the list, in the order of the list, whose address is
  one longer than the root's and equals the root's once its last element is dropped.
\<close>

definition subtraces_of :: "ParityTrace list \<Rightarrow> ParityTrace \<Rightarrow> ParityTrace list" where
  "subtraces_of trace_list root =
     [sub \<leftarrow> trace_list.
        length (trace_address sub) = length (trace_address root) + 1
        \<and> butlast (trace_address sub) = trace_address root]"

text \<open>The longest address of a list of records: the bound of the recursion.\<close>

definition max_depth :: "ParityTrace list \<Rightarrow> nat" where
  "max_depth traces = fold max (map (\<lambda>t. length (trace_address t)) traces) 0"

text \<open>
  \<^verbatim>\<open>get_calltree_from_parity_trace(traces, root, **root_kwargs)\<close>.  Without a root the
  first record is the root, and an empty list raises \<^verbatim>\<open>IndexError\<close>.  The children are
  assembled with their record as the root and no overrides.
\<close>

function get_calltree_from_parity_trace ::
  "ParityTrace list \<Rightarrow> ParityTrace option \<Rightarrow> kwargs \<Rightarrow> exn + CallTreeNode" where
  "get_calltree_from_parity_trace traces root root_kwargs =
     (case (case root of
              Some r \<Rightarrow> Inr r
            | None \<Rightarrow> (case traces of [] \<Rightarrow> Inl IndexError | t # _ \<Rightarrow> Inr t)) of
        Inl e \<Rightarrow> Inl e
      | Inr root' \<Rightarrow>
          (case node_kwargs_of root' of
             Inl e \<Rightarrow> Inl e
           | Inr node_kwargs \<Rightarrow>
               (case sequence_exn
                       (map (\<lambda>sub. get_calltree_from_parity_trace traces (Some sub) [])
                          (subtraces_of traces root')) of
                  Inl e \<Rightarrow> Inl e
                | Inr calls \<Rightarrow>
                    Inr (CallTreeNode
                           (dict_update (AList.update ''calls'' (PyNodes calls) node_kwargs)
                              root_kwargs)))))"
  by pat_completeness auto

termination get_calltree_from_parity_trace
proof (relation "measure (\<lambda>(traces, root, root_kwargs).
          case root of
            None \<Rightarrow> Suc (Suc (max_depth traces))
          | Some r \<Rightarrow> Suc (max_depth traces) - length (trace_address r))")
  show "wf (measure (\<lambda>(traces, root, root_kwargs).
          case root of
            None \<Rightarrow> Suc (Suc (max_depth traces))
          | Some r \<Rightarrow> Suc (max_depth traces) - length (trace_address r)))"
    by simp
next
  fix traces :: "ParityTrace list" and root :: "ParityTrace option" and root_kwargs :: kwargs
    and root' :: ParityTrace and node_kwargs :: kwargs and sub :: ParityTrace
  assume r: "(case root of
                Some r \<Rightarrow> Inr r
              | None \<Rightarrow> (case traces of [] \<Rightarrow> Inl IndexError | t # _ \<Rightarrow> Inr t)) = Inr root'"
    and s: "sub \<in> set (subtraces_of traces root')"
  from s have mem: "sub \<in> set traces"
    and len: "length (trace_address sub) = Suc (length (trace_address root'))"
    by (auto simp: subtraces_of_def)
  have bound: "m \<le> fold max ns m \<and> (\<forall>n \<in> set ns. n \<le> fold max ns m)"
    for ns :: "nat list" and m
  proof (induction ns arbitrary: m)
    case Nil
    show ?case by simp
  next
    case (Cons a ns)
    have "max a m \<le> fold max ns (max a m)" using Cons.IH by blast
    moreover have "\<forall>n \<in> set ns. n \<le> fold max ns (max a m)" using Cons.IH by blast
    ultimately show ?case by auto
  qed
  from mem have "length (trace_address sub) \<in> set (map (\<lambda>t. length (trace_address t)) traces)"
    by auto
  with bound have "length (trace_address sub) \<le> max_depth traces"
    unfolding max_depth_def by blast
  with len have lt: "length (trace_address root') < max_depth traces" by simp
  show "((traces, Some sub, []), (traces, root, root_kwargs))
        \<in> measure (\<lambda>(traces, root, root_kwargs).
          case root of
            None \<Rightarrow> Suc (Suc (max_depth traces))
          | Some r \<Rightarrow> Suc (max_depth traces) - length (trace_address r))"
  proof (cases root)
    case None
    then show ?thesis by simp
  next
    case (Some r0)
    with r have "r0 = root'" by simp
    with Some len lt show ?thesis by simp
  qed
qed

declare get_calltree_from_parity_trace.simps [simp del]

text \<open>The field of the node that an assembly returns; nothing when it raised.\<close>

definition result_field :: "exn + CallTreeNode \<Rightarrow> string \<Rightarrow> pyval option" where
  "result_field r k = (case r of Inl e \<Rightarrow> None | Inr node \<Rightarrow> field node k)"

section \<open>A concrete trace\<close>

text \<open>
  The two records of the scenario of the specification (a call that succeeds, with a
  reverted call below it), and three more records: a creation at address \<open>[1]\<close>, a
  second record at address \<open>[0]\<close>, and a self-destruction at address \<open>[0, 0]\<close>.
\<close>

definition scenario_root :: ParityTrace where
  "scenario_root =
     \<lparr>error = None,
      action = CallAction 0x5208 None (Some ''0xB'') ''0xA'' 0 ''call'',
      block_hash = ''0xh'', call_type = CALL, result = Some (CallResult 1 ''0x''),
      subtraces = 1, trace_address = [], transaction_hash = ''0xt''\<rparr>"

definition scenario_child :: ParityTrace where
  "scenario_child =
     \<lparr>error = Some ''reverted'',
      action = CallAction 0x100 None (Some ''0xC'') ''0xB'' 0 ''call'',
      block_hash = ''0xh'', call_type = CALL, result = None,
      subtraces = 0, trace_address = [0], transaction_hash = ''0xt''\<rparr>"

definition scenario_sibling :: ParityTrace where
  "scenario_sibling =
     \<lparr>error = None,
      action = CreateAction 0x200 ''0x60'' 0,
      block_hash = ''0xh'', call_type = CREATE, result = Some (CreateResult 7 ''0xD'' ''0x00''),
      subtraces = 0, trace_address = [1], transaction_hash = ''0xt''\<rparr>"

definition scenario_twin :: ParityTrace where
  "scenario_twin =
     \<lparr>error = None,
      action = CallAction 0x300 (Some ''0x01'') (Some ''0xE'') ''0xB'' 5 ''staticcall'',
      block_hash = ''0xh'', call_type = STATICCALL, result = Some (CallResult 2 ''0x02''),
      subtraces = 1, trace_address = [0], transaction_hash = ''0xt''\<rparr>"

definition scenario_grandchild :: ParityTrace where
  "scenario_grandchild =
     \<lparr>error = None,
      action = SelfDestructAction ''0xF'' 9,
      block_hash = ''0xh'', call_type = SELFDESTRUCT, result = None,
      subtraces = 0, trace_address = [0, 0], transaction_hash = ''0xt''\<rparr>"

definition scenario_traces :: "ParityTrace list" where
  "scenario_traces =
     [scenario_root, scenario_sibling, scenario_child, scenario_twin, scenario_grandchild]"

text \<open>The nodes of the records of the concrete trace.\<close>

definition grandchild_node :: CallTreeNode where
  "grandchild_node =
     CallTreeNode
       [(''call_type'', PyKind SELFDESTRUCT), (''failed'', PyBool False),
        (''address'', PyStr ''0xF''), (''calls'', PyNodes [])]"

definition child_node :: CallTreeNode where
  "child_node =
     CallTreeNode
       [(''call_type'', PyKind CALL), (''failed'', PyBool True),
        (''address'', PyStr ''0xC''), (''value'', PyInt 0),
        (''gas_limit'', PyInt 256), (''calldata'', PyNone),
        (''calls'', PyNodes [grandchild_node])]"

definition twin_node :: CallTreeNode where
  "twin_node =
     CallTreeNode
       [(''call_type'', PyKind STATICCALL), (''failed'', PyBool False),
        (''address'', PyStr ''0xE''), (''value'', PyInt 5),
        (''gas_limit'', PyInt 768), (''calldata'', PyStr ''0x01''),
        (''gas_cost'', PyInt 2), (''returndata'', PyStr ''0x02''),
        (''calls'', PyNodes [grandchild_node])]"

definition sibling_node :: CallTreeNode where
  "sibling_node =
     CallTreeNode
       [(''call_type'', PyKind CREATE), (''failed'', PyBool False),
        (''value'', PyInt 0), (''gas_limit'', PyInt 512),
        (''calldata'', PyStr ''0x60''), (''gas_cost'', PyInt 7),
        (''address'', PyStr ''0xD''), (''calls'', PyNodes [])]"

definition root_node :: CallTreeNode where
  "root_node =
     CallTreeNode
       [(''call_type'', PyKind CALL), (''failed'', PyBool False),
        (''address'', PyStr ''0xB''), (''value'', PyInt 0),
        (''gas_limit'', PyInt 21000), (''calldata'', PyNone),
        (''gas_cost'', PyInt 1), (''returndata'', PyStr ''0x''),
        (''calls'', PyNodes [sibling_node, child_node, twin_node])]"

section \<open>Facts about the builtin \<^verbatim>\<open>int\<close>\<close>

lemma hex_digit_range: "hex_digit c = Some d \<Longrightarrow> 0 \<le> d \<and> d < 16"
  unfolding hex_digit_def Let_def by (auto split: if_splits)

lemma hex_digit_not_special:
  assumes "is_hex_digit c"
  shows "c \<noteq> CHR ''_''" "c \<noteq> CHR ''+''" "c \<noteq> CHR ''-''" "c \<noteq> CHR ''x''" "c \<noteq> CHR ''X''"
    "\<not> py_isspace c"
  using assms unfolding is_hex_digit_def hex_digit_def py_isspace_def Let_def by auto

lemma scan_digits_nonneg:
  "scan_digits prev_us acc n s = Some (v, m, rest) \<Longrightarrow> 0 \<le> acc \<Longrightarrow> 0 \<le> v"
proof (induction prev_us acc n s rule: scan_digits.induct)
  case (1 prev_us acc n)
  then show ?case by (simp split: if_splits)
next
  case (2 prev_us acc n c cs)
  show ?case
  proof (cases "c = CHR ''_''")
    case True
    with 2 show ?thesis by (simp split: if_splits)
  next
    case False
    show ?thesis
    proof (cases "hex_digit c")
      case None
      with False "2.prems" show ?thesis by (simp split: if_splits)
    next
      case (Some d)
      with hex_digit_range have "0 \<le> d" by blast
      with "2.prems"(2) have "0 \<le> acc * 16 + d" by simp
      with "2.IH"(2) [OF False Some] "2.prems"(1) False Some show ?thesis by simp
    qed
  qed
qed

lemma scan_digits_hex_text:
  "list_all is_hex_digit s \<Longrightarrow>
   scan_digits False acc n s =
     Some (foldl (\<lambda>acc c. acc * 16 + (case hex_digit c of Some d \<Rightarrow> d | None \<Rightarrow> 0)) acc s,
           n + length s, [])"
proof (induction s arbitrary: acc n)
  case Nil
  show ?case by simp
next
  case (Cons c cs)
  from Cons.prems have c: "is_hex_digit c" and cs: "list_all is_hex_digit cs" by simp_all
  from c obtain d where d: "hex_digit c = Some d" by (auto simp: is_hex_digit_def)
  from hex_digit_not_special(1) [OF c] d show ?case
    by (simp add: Cons.IH [OF cs])
qed

lemma skip_prefix_hex_text: "list_all is_hex_digit s \<Longrightarrow> skip_prefix s = s"
proof (cases s rule: skip_prefix.cases)
  case (1 a b cs)
  assume "list_all is_hex_digit s"
  with 1 have "is_hex_digit b" by simp
  from hex_digit_not_special(4,5) [OF this] 1 show ?thesis by simp
qed simp_all

lemma int16_str_hex_text:
  assumes "s \<noteq> []" and "list_all is_hex_digit s"
  shows "int16_str s = Inr (hex_value s)"
proof -
  from assms obtain c cs where s: "s = c # cs" and c: "is_hex_digit c"
    by (cases s) auto
  have "dropWhile py_isspace s = s"
    using hex_digit_not_special(6) [OF c] by (simp add: s)
  moreover have "split_sign s = (1, s)"
    using hex_digit_not_special(2,3) [OF c] by (simp add: s)
  moreover have "hd s \<noteq> CHR ''_''"
    using hex_digit_not_special(1) [OF c] by (simp add: s)
  ultimately show ?thesis
    using assms
    by (simp add: int16_str_def skip_prefix_hex_text scan_digits_hex_text hex_value_def)
qed


lemma int16_str_sign:
  assumes "int16_str s = Inr n"
  shows "if denotes_negative (RStr s) then n \<le> 0 else 0 \<le> n"
proof -
  obtain sign s2 where sp: "split_sign (dropWhile py_isspace s) = (sign, s2)"
    by (cases "split_sign (dropWhile py_isspace s)")
  from assms sp obtain v m rest where
    scan: "scan_digits False 0 0 (skip_prefix s2) = Some (v, m, rest)" and n: "n = sign * v"
    unfolding int16_str_def Let_def by (auto split: if_splits option.splits)
  from scan_digits_nonneg [OF scan] have v: "0 \<le> v" by simp
  define t where "t = dropWhile py_isspace s"
  have "fst (split_sign t) = (if (case t of [] \<Rightarrow> False | c # _ \<Rightarrow> c = CHR ''-'') then - 1 else 1)"
    by (cases t) simp_all
  with sp have "sign = (if denotes_negative (RStr s) then - 1 else 1)"
    by (simp add: t_def)
  with n v show ?thesis by simp
qed

lemma int16_sign:
  "int16 v = Inr n \<Longrightarrow> if denotes_negative v then n \<le> 0 else 0 \<le> n"
  using int16_str_sign by (cases v) simp_all

lemma float_trunc_sign:
  "(m < 0 \<longrightarrow> float_trunc m e \<le> 0) \<and> (0 \<le> m \<longrightarrow> 0 \<le> float_trunc m e)"
proof -
  have "0 \<le> \<bar>m\<bar> div 2 ^ nat (- e)"
    by (simp add: pos_imp_zdiv_nonneg_iff)
  then show ?thesis
    unfolding float_trunc_def
    by (auto simp: mult_le_0_iff zero_le_mult_iff sgn_if)
qed

lemma float_trunc_bounds:
  assumes "e < 0"
  shows "\<bar>float_trunc m e\<bar> * 2 ^ nat (- e) \<le> \<bar>m\<bar>
       \<and> \<bar>m\<bar> < (\<bar>float_trunc m e\<bar> + 1) * 2 ^ nat (- e)"
proof -
  let ?p = "(2::int) ^ nat (- e)"
  let ?q = "\<bar>m\<bar> div ?p"
  have p: "0 < ?p" by simp
  have q: "0 \<le> ?q" by (simp add: pos_imp_zdiv_nonneg_iff)
  have "\<bar>sgn m * ?q\<bar> = ?q"
  proof (cases "m = 0")
    case True
    then show ?thesis by simp
  next
    case False
    with q show ?thesis by (simp add: abs_mult)
  qed
  with assms have abs: "\<bar>float_trunc m e\<bar> = ?q"
    by (simp add: float_trunc_def)
  have split: "?q * ?p + \<bar>m\<bar> mod ?p = \<bar>m\<bar>"
    by (rule div_mult_mod_eq)
  have rem: "0 \<le> \<bar>m\<bar> mod ?p" "\<bar>m\<bar> mod ?p < ?p"
    using p by simp_all
  have more: "(?q + 1) * ?p = ?q * ?p + ?p"
    by (simp add: algebra_simps)
  from split rem have "?q * ?p \<le> \<bar>m\<bar>"
    by linarith
  moreover from split rem more have "\<bar>m\<bar> < (?q + 1) * ?p"
    by linarith
  ultimately show ?thesis by (simp only: abs)
qed

lemma int_native_sign:
  "\<not> isinstance_str v \<Longrightarrow> int_native v = Inr n \<Longrightarrow>
   if denotes_negative v then n \<le> 0 else 0 \<le> n"
proof (cases v)
  case (RFloat f)
  assume "int_native v = Inr n"
  with RFloat show ?thesis
    using float_trunc_sign by (cases f) (auto simp: not_less)
qed (auto split: if_splits)

section \<open>The builtin \<^verbatim>\<open>int\<close> and the grammar of numerals\<close>

lemma rstrip_Nil: "rstrip [] = []"
  by (simp add: rstrip_def)

lemma rstrip_eq_Nil: "rstrip s = [] \<longleftrightarrow> (\<forall>c \<in> set s. py_isspace c)"
  by (simp add: rstrip_def dropWhile_eq_Nil_conv)

lemma dropWhile_space_Nil: "dropWhile py_isspace s = [] \<longleftrightarrow> rstrip s = []"
  by (simp add: rstrip_eq_Nil dropWhile_eq_Nil_conv)

lemma rstrip_Cons:
  "rstrip (c # cs) = (if py_isspace c \<and> rstrip cs = [] then [] else c # rstrip cs)"
  by (auto simp: rstrip_def dropWhile_append dropWhile_eq_Nil_conv)

lemma rstrip_Cons_no_space: "\<not> py_isspace c \<Longrightarrow> rstrip (c # cs) = c # rstrip cs"
  by (simp add: rstrip_Cons)

lemma not_space:
  "\<not> py_isspace CHR ''_''" "\<not> py_isspace CHR ''+''" "\<not> py_isspace CHR ''-''"
  "\<not> py_isspace CHR ''0''" "\<not> py_isspace CHR ''x''" "\<not> py_isspace CHR ''X''"
  by (simp_all add: py_isspace_def)

lemma underscore_no_digit: "\<not> is_hex_digit CHR ''_''"
  by (simp add: is_hex_digit_def hex_digit_def)

lemma digit_groups_Cons: "digit_groups (c # r) = (is_hex_digit c \<and> tail_groups r)"
  by (cases r) (simp_all add: tail_groups_def)

lemma scan_groups:
  "(0 < n \<longrightarrow>
      scan_result (scan_digits False acc n t) =
        (if tail_groups (rstrip t)
         then Some (foldl (\<lambda>acc c. acc * 16 + (case hex_digit c of Some d \<Rightarrow> d | None \<Rightarrow> 0)) acc
                      (filter (\<lambda>c. c \<noteq> CHR ''_'') (rstrip t)))
         else None))
   \<and> scan_result (scan_digits True acc n t) =
        (if digit_groups (rstrip t)
         then Some (foldl (\<lambda>acc c. acc * 16 + (case hex_digit c of Some d \<Rightarrow> d | None \<Rightarrow> 0)) acc
                      (filter (\<lambda>c. c \<noteq> CHR ''_'') (rstrip t)))
         else None)"
proof (induction t arbitrary: acc n)
  case Nil
  show ?case
    by (simp add: rstrip_Nil scan_result_def tail_groups_def)
next
  case (Cons c cs)
  show ?case
  proof (cases "c = CHR ''_''")
    case True
    then have r: "rstrip (c # cs) = c # rstrip cs"
      by (simp add: rstrip_Cons_no_space not_space)
    from True Cons.IH [where acc = acc and n = n] show ?thesis
      unfolding r
      by (simp add: tail_groups_def digit_groups_Cons underscore_no_digit scan_result_def)
  next
    case False
    show ?thesis
    proof (cases "hex_digit c")
      case (Some d)
      then have dig: "is_hex_digit c" by (simp add: is_hex_digit_def)
      then have r: "rstrip (c # cs) = c # rstrip cs"
        by (simp add: rstrip_Cons_no_space hex_digit_not_special)
      from False Some dig Cons.IH [where acc = "acc * 16 + d" and n = "Suc n"] show ?thesis
        unfolding r
        by (simp add: tail_groups_def digit_groups_Cons)
    next
      case None
      then have nodig: "\<not> is_hex_digit c" by (simp add: is_hex_digit_def)
      show ?thesis
      proof (cases "rstrip (c # cs) = []")
        case True
        then have "dropWhile py_isspace (c # cs) = []"
          by (simp only: dropWhile_space_Nil)
        with True False None show ?thesis
          by (simp add: scan_result_def tail_groups_def del: dropWhile.simps)
      next
        case nonempty: False
        then have r: "rstrip (c # cs) = c # rstrip cs"
          by (simp add: rstrip_Cons split: if_splits)
        from nonempty have "dropWhile py_isspace (c # cs) \<noteq> []"
          using dropWhile_space_Nil [of "c # cs"] by blast
        with False None nodig show ?thesis
          unfolding r
          by (simp add: scan_result_def tail_groups_def digit_groups_Cons del: dropWhile.simps)
      qed
    qed
  qed
qed

lemma scan_start:
  assumes "t = [] \<or> hd t \<noteq> CHR ''_''"
  shows "scan_result (scan_digits False 0 0 t) =
           (if digit_groups (rstrip t)
            then Some (hex_value (filter (\<lambda>c. c \<noteq> CHR ''_'') (rstrip t)))
            else None)"
proof (cases t)
  case Nil
  then show ?thesis by (simp add: rstrip_Nil scan_result_def)
next
  case (Cons c cs)
  with assms have nus: "c \<noteq> CHR ''_''" by simp
  show ?thesis
  proof (cases "hex_digit c")
    case (Some d)
    then have dig: "is_hex_digit c" by (simp add: is_hex_digit_def)
    then have r: "rstrip (c # cs) = c # rstrip cs"
      by (simp add: rstrip_Cons_no_space hex_digit_not_special)
    from scan_groups [where n = "Suc 0" and acc = d and t = cs] nus Some dig show ?thesis
      unfolding Cons r
      by (simp add: digit_groups_Cons hex_value_def)
  next
    case None
    then have nodig: "\<not> is_hex_digit c" by (simp add: is_hex_digit_def)
    have "\<not> digit_groups (rstrip (c # cs))"
      using nodig by (simp add: rstrip_Cons digit_groups_Cons)
    with nus None show ?thesis
      unfolding Cons by (simp add: scan_result_def)
  qed
qed

lemma unsigned_rstrip: "unsigned (rstrip t) = rstrip (unsigned t)"
proof (cases t)
  case Nil
  then show ?thesis by (simp add: unsigned_def rstrip_Nil)
next
  case (Cons c cs)
  show ?thesis
  proof (cases "c = CHR ''+'' \<or> c = CHR ''-''")
    case True
    then have "rstrip (c # cs) = c # rstrip cs"
      by (auto simp: rstrip_Cons_no_space not_space)
    with True show ?thesis by (auto simp: Cons unsigned_def)
  next
    case False
    then show ?thesis by (simp add: Cons unsigned_def rstrip_Cons)
  qed
qed

lemma sign_rstrip: "take (Suc 0) (rstrip t) = ''-'' \<longleftrightarrow> take (Suc 0) t = ''-''"
  by (cases t) (auto simp: rstrip_Nil rstrip_Cons not_space)

lemma unmarked_rstrip: "unmarked (rstrip u) = rstrip (unmarked u)"
proof (cases "take 2 u = ''0x'' \<or> take 2 u = ''0X''")
  case True
  then obtain b cs where u: "u = CHR ''0'' # b # cs" and b: "b = CHR ''x'' \<or> b = CHR ''X''"
    by (cases u; cases "tl u") auto
  from b have nsp: "\<not> py_isspace b"
    by (auto simp: not_space)
  have r: "rstrip (CHR ''0'' # b # cs) = CHR ''0'' # b # rstrip cs"
    by (simp add: rstrip_Cons_no_space not_space nsp)
  have left: "unmarked (CHR ''0'' # b # rstrip cs) =
      (case rstrip cs of [] \<Rightarrow> [] | d # ds \<Rightarrow> if d = CHR ''_'' then ds else d # ds)"
    using b by (auto simp: unmarked_def split: list.splits)
  have right: "unmarked (CHR ''0'' # b # cs) =
      (case cs of [] \<Rightarrow> [] | d # ds \<Rightarrow> if d = CHR ''_'' then ds else d # ds)"
    using b by (auto simp: unmarked_def split: list.splits)
  have "(case rstrip cs of [] \<Rightarrow> [] | d # ds \<Rightarrow> if d = CHR ''_'' then ds else d # ds) =
      rstrip (case cs of [] \<Rightarrow> [] | d # ds \<Rightarrow> if d = CHR ''_'' then ds else d # ds)"
  proof (cases cs)
    case Nil
    then show ?thesis by (simp add: rstrip_Nil)
  next
    case (Cons d ds)
    show ?thesis
    proof (cases "d = CHR ''_''")
      case True
      then have "rstrip (d # ds) = d # rstrip ds"
        by (simp add: rstrip_Cons_no_space not_space)
      with True show ?thesis by (simp add: Cons)
    next
      case False
      then show ?thesis by (simp add: Cons rstrip_Cons)
    qed
  qed
  then show ?thesis
    unfolding u r left right .
next
  case False
  then have un: "unmarked u = u" by (simp add: unmarked_def)
  have "\<not> (take 2 (rstrip u) = ''0x'' \<or> take 2 (rstrip u) = ''0X'')"
  proof (cases u)
    case Nil
    then show ?thesis by (simp add: rstrip_Nil)
  next
    case (Cons a as)
    note u = Cons
    show ?thesis
    proof (cases as)
      case Nil
      then show ?thesis by (simp add: u rstrip_Cons rstrip_Nil)
    next
      case (Cons b bs)
      with False u show ?thesis by (auto simp: rstrip_Cons)
    qed
  qed
  then have "unmarked (rstrip u) = rstrip u" by (simp add: unmarked_def)
  with un show ?thesis by simp
qed

lemma split_sign_unsigned:
  "split_sign t = (if take 1 t = ''-'' then - 1 else 1, unsigned t)"
  by (cases t) (auto simp: unsigned_def)

lemma skip_prefix_unmarked: "skip_prefix u = unmarked u"
  by (cases u rule: skip_prefix.cases) (auto simp: unmarked_def split: list.splits)

lemma int16_str_scan:
  "int16_str s =
     (case scan_result (scan_digits False 0 0 (skip_prefix (snd (split_sign (dropWhile py_isspace s))))) of
        None \<Rightarrow> Inl ValueError
      | Some v \<Rightarrow>
          if take 1 (skip_prefix (snd (split_sign (dropWhile py_isspace s)))) = ''_''
          then Inl ValueError
          else Inr (fst (split_sign (dropWhile py_isspace s)) * v))"
proof -
  obtain sg s2 where sp: "split_sign (dropWhile py_isspace s) = (sg, s2)"
    by (cases "split_sign (dropWhile py_isspace s)")
  have hd: "(skip_prefix s2 \<noteq> [] \<and> hd (skip_prefix s2) = CHR ''_'') \<longleftrightarrow> take 1 (skip_prefix s2) = ''_''"
    by (cases "skip_prefix s2") auto
  show ?thesis
    unfolding int16_str_def sp Let_def scan_result_def
    by (simp only: hd prod.case fst_conv snd_conv) (auto split: option.splits)
qed

lemma int16_str_numeral:
  "int16_str s = (if is_hex_numeral s then Inr (numeral_value s) else Inl ValueError)"
proof -
  let ?t = "dropWhile py_isspace s"
  let ?s3 = "skip_prefix (snd (split_sign ?t))"
  have body: "rstrip ?s3 = numeral_body s"
    by (simp add: numeral_body_def strip_def split_sign_unsigned skip_prefix_unmarked
          unsigned_rstrip unmarked_rstrip)
  have sign: "fst (split_sign ?t) = (if take 1 (strip s) = ''-'' then - 1 else 1)"
    by (simp add: split_sign_unsigned strip_def sign_rstrip)
  show ?thesis
  proof (cases "take 1 ?s3 = ''_''")
    case True
    then obtain cs where s3: "?s3 = CHR ''_'' # cs" by (cases ?s3) auto
    then have "rstrip ?s3 = CHR ''_'' # rstrip cs"
      by (simp add: rstrip_Cons_no_space not_space)
    then have "\<not> digit_groups (rstrip ?s3)"
      by (simp add: digit_groups_Cons underscore_no_digit)
    with True show ?thesis
      unfolding int16_str_scan is_hex_numeral_def body [symmetric]
      by (simp split: option.splits)
  next
    case False
    then have start: "?s3 = [] \<or> hd ?s3 \<noteq> CHR ''_''" by (cases ?s3) auto
    from False show ?thesis
      unfolding int16_str_scan scan_start [OF start] is_hex_numeral_def numeral_value_def
        body [symmetric] sign [symmetric]
      by simp
  qed
qed

section \<open>Dictionaries and sequencing\<close>

lemma sequence_exn_map_Inr: "sequence_exn (map Inr ys) = Inr ys"
  by (induction ys) auto

lemma sequence_exn_Inr: "sequence_exn xs = Inr ys \<longleftrightarrow> xs = map Inr ys"
proof
  show "sequence_exn xs = Inr ys \<Longrightarrow> xs = map Inr ys"
    by (induction xs arbitrary: ys) (auto split: sum.splits)
qed (simp add: sequence_exn_map_Inr)

lemma sequence_exn_Inl: "sequence_exn xs = Inl e \<Longrightarrow> Inl e \<in> set xs"
  by (induction xs) (auto split: sum.splits)

lemma map_of_dict_update_absent:
  "k \<notin> fst ` set kw \<Longrightarrow> map_of (dict_update d kw) k = map_of d k"
  unfolding dict_update_def
  by (induction kw arbitrary: d) (auto simp: update_conv')

lemma map_of_dict_update:
  "distinct (map fst kw) \<Longrightarrow>
   map_of (dict_update d kw) k = (case map_of kw k of Some v \<Rightarrow> Some v | None \<Rightarrow> map_of d k)"
proof (induction kw arbitrary: d)
  case Nil
  show ?case by (simp add: dict_update_def)
next
  case (Cons p kw)
  obtain k' v' where p: "p = (k', v')" by (cases p)
  from Cons.prems p have fresh: "k' \<notin> fst ` set kw" and dist: "distinct (map fst kw)" by auto
  have step: "dict_update d ((k', v') # kw) = dict_update (AList.update k' v' d) kw"
    by (simp add: dict_update_def)
  have ih: "map_of (dict_update (AList.update k' v' d) kw) k =
      (case map_of kw k of Some v \<Rightarrow> Some v | None \<Rightarrow> map_of (AList.update k' v' d) k)"
    by (rule Cons.IH [OF dist])
  show ?case
  proof (cases "k = k'")
    case True
    with fresh have "map_of kw k = None" by (simp add: map_of_eq_None_iff)
    with True show ?thesis
      unfolding p step ih by (simp add: update_conv')
  next
    case False
    then show ?thesis
      unfolding p step ih by (simp add: update_conv' split: option.splits)
  qed
qed

lemma map_of_with_calls:
  "k \<noteq> ''calls'' \<Longrightarrow> map_of (AList.update ''calls'' v d) k = map_of d k"
  by (simp add: update_conv')

lemma dict_update_Nil: "dict_update d [] = d"
  by (simp add: dict_update_def)

section \<open>Facts about the projection of the fields\<close>

lemma node_kwargs_failed:
  "node_kwargs_of root = Inr nk \<Longrightarrow> map_of nk ''failed'' = Some (PyBool (error root \<noteq> None))"
  unfolding node_kwargs_of_def Let_def
  by (auto simp: ebind_def dict_update_def split: if_splits sum.splits option.splits)

lemma node_kwargs_call_family:
  assumes "call_type root \<in> {CALL, DELEGATECALL, STATICCALL, CALLCODE}"
    and "result root = None"
  shows "node_kwargs_of root =
           ebind (action_receiver (action root)) (\<lambda>r.
           ebind (action_value (action root)) (\<lambda>v.
           ebind (action_gas (action root)) (\<lambda>g.
           ebind (action_input (action root)) (\<lambda>i.
             Inr [(''call_type'', PyKind (call_type root)), (''failed'', PyBool (error root \<noteq> None)),
                  (''address'', py_opt_str r), (''value'', PyInt v),
                  (''gas_limit'', PyInt g), (''calldata'', py_opt_str i)]))))"
proof -
  from assms(1) have "call_type root \<noteq> CREATE" by auto
  with assms show ?thesis
    unfolding node_kwargs_of_def Let_def by (simp add: dict_update_def)
qed

lemma node_kwargs_call_family_error:
  assumes "call_type root \<in> {CALL, DELEGATECALL, STATICCALL, CALLCODE}"
    and "result root = None"
    and "node_kwargs_of root = Inl e"
  shows "e = AttributeError \<and> (\<forall>g i r s v c. action root \<noteq> CallAction g i r s v c)"
  using assms(3) unfolding node_kwargs_call_family [OF assms(1,2)]
  by (cases "action root") (simp_all add: ebind_def)

lemma node_kwargs_call_no_result:
  assumes "call_type root \<in> {CALL, DELEGATECALL, STATICCALL, CALLCODE}"
    and "result root = None"
    and "node_kwargs_of root = Inr nk"
  shows "map_of nk ''gas_cost'' = None \<and> map_of nk ''returndata'' = None"
  using assms(3) unfolding node_kwargs_call_family [OF assms(1,2)]
  by (cases "action root") (auto simp add: ebind_def)

section \<open>Facts about the recursion\<close>

lemma get_calltree_Some:
  "get_calltree_from_parity_trace traces (Some root) root_kwargs =
     ebind (node_kwargs_of root) (\<lambda>node_kwargs.
     ebind (sequence_exn (map (\<lambda>sub. get_calltree_from_parity_trace traces (Some sub) [])
                            (subtraces_of traces root))) (\<lambda>calls.
       Inr (CallTreeNode (dict_update (AList.update ''calls'' (PyNodes calls) node_kwargs)
                            root_kwargs))))"
  by (subst get_calltree_from_parity_trace.simps) (simp add: ebind_def split: sum.splits)

lemma get_calltree_Inr:
  assumes "get_calltree_from_parity_trace traces (Some root) root_kwargs = Inr node"
  shows "\<exists>node_kwargs calls.
           node_kwargs_of root = Inr node_kwargs
         \<and> map Inr calls = map (\<lambda>sub. get_calltree_from_parity_trace traces (Some sub) [])
                               (subtraces_of traces root)
         \<and> node = CallTreeNode (dict_update (AList.update ''calls'' (PyNodes calls) node_kwargs)
                                   root_kwargs)"
  using assms unfolding get_calltree_Some [of traces root root_kwargs] ebind_def
  by (auto split: sum.splits simp: sequence_exn_Inr)

lemma get_calltree_Inl:
  assumes "get_calltree_from_parity_trace traces (Some root) root_kwargs = Inl e"
  shows "node_kwargs_of root = Inl e
       \<or> (\<exists>sub \<in> set (subtraces_of traces root).
             get_calltree_from_parity_trace traces (Some sub) [] = Inl e)"
proof (cases "node_kwargs_of root")
  case (Inl e')
  with assms show ?thesis
    unfolding get_calltree_Some [of traces root root_kwargs] ebind_def by simp
next
  case (Inr nk)
  with assms have "sequence_exn (map (\<lambda>sub. get_calltree_from_parity_trace traces (Some sub) [])
                            (subtraces_of traces root)) = Inl e"
    unfolding get_calltree_Some [of traces root root_kwargs] ebind_def
    by (simp split: sum.splits)
  from sequence_exn_Inl [OF this] show ?thesis by auto
qed

lemma get_calltree_overrides:
  "get_calltree_from_parity_trace traces root root_kwargs =
     (case get_calltree_from_parity_trace traces root [] of
        Inl e \<Rightarrow> Inl e
      | Inr computed \<Rightarrow> Inr (CallTreeNode (dict_update (fields_of computed) root_kwargs)))"
  by (simp only: get_calltree_from_parity_trace.simps [of traces root root_kwargs]
        get_calltree_from_parity_trace.simps [of traces root "[]"])
     (simp add: dict_update_Nil split: sum.splits)

lemma length_le_max_depth:
  assumes "t \<in> set traces"
  shows "length (trace_address t) \<le> max_depth traces"
proof -
  have bound: "m \<le> fold max ns m \<and> (\<forall>n \<in> set ns. n \<le> fold max ns m)"
    for ns :: "nat list" and m
  proof (induction ns arbitrary: m)
    case Nil
    show ?case by simp
  next
    case (Cons a ns)
    have "max a m \<le> fold max ns (max a m)" using Cons.IH by blast
    moreover have "\<forall>n \<in> set ns. n \<le> fold max ns (max a m)" using Cons.IH by blast
    ultimately show ?case by auto
  qed
  from assms have "length (trace_address t) \<in> set (map (\<lambda>t. length (trace_address t)) traces)"
    by auto
  with bound show ?thesis
    unfolding max_depth_def by blast
qed

lemma sequence_exn_all_Inr:
  "(\<And>x. x \<in> set xs \<Longrightarrow> \<exists>y. x = Inr y) \<Longrightarrow> \<exists>ys. sequence_exn xs = Inr ys"
proof (induction xs)
  case Nil
  show ?case by simp
next
  case (Cons x xs)
  from Cons.prems [of x] obtain y where x: "x = Inr y" by auto
  from Cons.IH Cons.prems obtain ys where "sequence_exn xs = Inr ys" by auto
  with x show ?case by simp
qed

lemma get_calltree_returns:
  assumes proj: "\<And>t. t \<in> set traces \<Longrightarrow> \<exists>nk. node_kwargs_of t = Inr nk"
  shows "(\<exists>nk. node_kwargs_of root = Inr nk) \<Longrightarrow>
         \<exists>node. get_calltree_from_parity_trace traces (Some root) root_kwargs = Inr node"
proof (induction "Suc (max_depth traces) - length (trace_address root)"
         arbitrary: root root_kwargs rule: less_induct)
  case less
  from less.prems obtain nk where nk: "node_kwargs_of root = Inr nk" by blast
  have child: "\<exists>y. get_calltree_from_parity_trace traces (Some sub) [] = Inr y"
    if sub: "sub \<in> set (subtraces_of traces root)" for sub
  proof -
    from sub have mem: "sub \<in> set traces"
      and len: "length (trace_address sub) = Suc (length (trace_address root))"
      by (auto simp: subtraces_of_def)
    from length_le_max_depth [OF mem] len
    have "Suc (max_depth traces) - length (trace_address sub)
        < Suc (max_depth traces) - length (trace_address root)"
      by simp
    from less.hyps [OF this proj [OF mem]] show ?thesis .
  qed
  have "\<exists>calls. sequence_exn (map (\<lambda>sub. get_calltree_from_parity_trace traces (Some sub) [])
                                (subtraces_of traces root)) = Inr calls"
    by (rule sequence_exn_all_Inr) (use child in auto)
  then obtain calls where "sequence_exn (map (\<lambda>sub. get_calltree_from_parity_trace traces (Some sub) [])
                                (subtraces_of traces root)) = Inr calls" ..
  with nk show ?case
    unfolding get_calltree_Some [of traces root root_kwargs] ebind_def by simp
qed

lemma subtraces_of_same_address:
  "trace_address a = trace_address b \<Longrightarrow> subtraces_of traces a = subtraces_of traces b"
  by (simp add: subtraces_of_def)

lemma scenario_assembled:
  "get_calltree_from_parity_trace scenario_traces (Some scenario_root) [] = Inr root_node"
  "get_calltree_from_parity_trace scenario_traces (Some scenario_sibling) [] = Inr sibling_node"
  "get_calltree_from_parity_trace scenario_traces (Some scenario_child) [] = Inr child_node"
  "get_calltree_from_parity_trace scenario_traces (Some scenario_twin) [] = Inr twin_node"
  "get_calltree_from_parity_trace scenario_traces (Some scenario_grandchild) [] = Inr grandchild_node"
  by code_simp+

section \<open>Claims about the tree assembler\<close>

text \<open>
  Claim C1, as the code has it.  The specification gives the failed flag as true exactly
  when the root's error is absent; the code sets it exactly when the error is present.
  When no override names \<^verbatim>\<open>failed\<close>, the failed flag of the assembled node is true if and
  only if the root record's error field is present.  When no node is assembled, the
  exception comes from the projection of the root's fields or from a child.
\<close>

theorem failed_iff_error_present:
  assumes "''failed'' \<notin> fst ` set root_kwargs"
  shows "case get_calltree_from_parity_trace traces (Some root) root_kwargs of
           Inr node \<Rightarrow> field node ''failed'' = Some (PyBool (error root \<noteq> None))
         | Inl e \<Rightarrow> node_kwargs_of root = Inl e
                  \<or> (\<exists>sub \<in> set (subtraces_of traces root).
                        get_calltree_from_parity_trace traces (Some sub) [] = Inl e)"
proof (cases "get_calltree_from_parity_trace traces (Some root) root_kwargs")
  case (Inl e)
  then show ?thesis using get_calltree_Inl [OF Inl] by simp
next
  case (Inr node)
  from get_calltree_Inr [OF Inr] obtain nk calls where
    nk: "node_kwargs_of root = Inr nk" and
    node: "node = CallTreeNode (dict_update (AList.update ''calls'' (PyNodes calls) nk) root_kwargs)"
    by blast
  have "field node ''failed'' = map_of nk ''failed''"
    unfolding node field_def using assms
    by (simp add: map_of_dict_update_absent map_of_with_calls)
  with node_kwargs_failed [OF nk] Inr show ?thesis by simp
qed

theorem failed_iff_error_present_witness:
  "''failed'' \<notin> fst ` set ([] :: kwargs)
   \<and> error scenario_child \<noteq> None
   \<and> result_field (get_calltree_from_parity_trace scenario_traces (Some scenario_child) [])
        ''failed'' = Some (PyBool True)
   \<and> error scenario_twin = None
   \<and> result_field (get_calltree_from_parity_trace scenario_traces (Some scenario_twin) [])
        ''failed'' = Some (PyBool False)"
proof -
  have no_override: "''failed'' \<notin> fst ` set ([] :: kwargs)" by simp
  have "error scenario_child \<noteq> None" "error scenario_twin = None"
    by (simp_all add: scenario_child_def scenario_twin_def)
  with failed_iff_error_present [OF no_override, where traces = scenario_traces and root = scenario_child]
    failed_iff_error_present [OF no_override, where traces = scenario_traces and root = scenario_twin]
  show ?thesis
    by (simp add: scenario_assembled result_field_def)
qed

text \<open>
  Claim C1 as the specification states it fails on the root record of the scenario: its
  error is absent, and the failed flag of its node is false, not true.
\<close>

theorem failed_iff_error_absent_counterexample:
  "\<not> (result_field (get_calltree_from_parity_trace scenario_traces (Some scenario_root) [])
         ''failed'' = Some (PyBool True)
       \<longleftrightarrow> error scenario_root = None)"
proof -
  have "field root_node ''failed'' = Some (PyBool False)"
    by (simp add: field_def root_node_def)
  moreover have "error scenario_root = None"
    by (simp add: scenario_root_def)
  ultimately show ?thesis
    unfolding scenario_assembled result_field_def by simp
qed

text \<open>
  Claim C2.  When no override names \<^verbatim>\<open>calls\<close>, the children of the assembled node are the
  nodes assembled, without overrides, from the records whose address is one longer than
  the root's and equals the root's once its last element is dropped; they stand in the
  order of the record list, whatever the last elements of their addresses are.  When no
  node is assembled, the exception comes from the projection of the root's fields or
  from a child.
\<close>

theorem children_in_record_order:
  assumes "''calls'' \<notin> fst ` set root_kwargs"
  shows "case get_calltree_from_parity_trace traces (Some root) root_kwargs of
           Inr node \<Rightarrow>
             (\<exists>calls. field node ''calls'' = Some (PyNodes calls)
                \<and> map Inr calls =
                    map (\<lambda>sub. get_calltree_from_parity_trace traces (Some sub) [])
                      [sub \<leftarrow> traces.
                         length (trace_address sub) = length (trace_address root) + 1
                         \<and> butlast (trace_address sub) = trace_address root])
         | Inl e \<Rightarrow> node_kwargs_of root = Inl e
                  \<or> (\<exists>sub \<in> set (subtraces_of traces root).
                        get_calltree_from_parity_trace traces (Some sub) [] = Inl e)"
proof (cases "get_calltree_from_parity_trace traces (Some root) root_kwargs")
  case (Inl e)
  then show ?thesis using get_calltree_Inl [OF Inl] by simp
next
  case (Inr node)
  from get_calltree_Inr [OF Inr] obtain nk calls where
    calls: "map Inr calls = map (\<lambda>sub. get_calltree_from_parity_trace traces (Some sub) [])
                               (subtraces_of traces root)" and
    node: "node = CallTreeNode (dict_update (AList.update ''calls'' (PyNodes calls) nk) root_kwargs)"
    by blast
  have "field node ''calls'' = Some (PyNodes calls)"
    unfolding node field_def using assms
    by (simp add: map_of_dict_update_absent update_conv')
  with calls Inr show ?thesis by (auto simp: subtraces_of_def)
qed

theorem children_in_record_order_witness:
  "''calls'' \<notin> fst ` set ([] :: kwargs)
   \<and> map trace_address scenario_traces = [[], [1], [0], [0], [0, 0]]
   \<and> result_field (get_calltree_from_parity_trace scenario_traces (Some scenario_root) [])
        ''calls'' = Some (PyNodes [sibling_node, child_node, twin_node])
   \<and> map Inr [sibling_node, child_node, twin_node] =
       map (\<lambda>sub. get_calltree_from_parity_trace scenario_traces (Some sub) [])
         [scenario_sibling, scenario_child, scenario_twin]"
proof -
  have no_override: "''calls'' \<notin> fst ` set ([] :: kwargs)" by simp
  have addresses: "map trace_address scenario_traces = [[], [1], [0], [0], [0, 0]]"
    by (simp add: scenario_traces_def scenario_root_def scenario_sibling_def
          scenario_child_def scenario_twin_def scenario_grandchild_def)
  have children: "[sub \<leftarrow> scenario_traces.
                     length (trace_address sub) = length (trace_address scenario_root) + 1
                     \<and> butlast (trace_address sub) = trace_address scenario_root]
                  = [scenario_sibling, scenario_child, scenario_twin]"
    by (simp add: scenario_traces_def scenario_root_def scenario_sibling_def
          scenario_child_def scenario_twin_def scenario_grandchild_def)
  from children_in_record_order [OF no_override, where traces = scenario_traces and root = scenario_root]
  obtain calls where
    "field root_node ''calls'' = Some (PyNodes calls)"
    "map Inr calls = map (\<lambda>sub. get_calltree_from_parity_trace scenario_traces (Some sub) [])
                       [scenario_sibling, scenario_child, scenario_twin]"
    unfolding children by (auto simp: scenario_assembled)
  moreover have "field root_node ''calls'' = Some (PyNodes [sibling_node, child_node, twin_node])"
    by (simp add: field_def root_node_def)
  ultimately show ?thesis
    using no_override addresses by (simp add: scenario_assembled result_field_def)
qed

text \<open>
  Claim C8.  For a record of a CALL-family kind whose error is set and whose result is
  absent, and overrides that name none of \<^verbatim>\<open>gas_cost\<close>, \<^verbatim>\<open>returndata\<close> and \<^verbatim>\<open>failed\<close>, the
  assembled node has no \<^verbatim>\<open>gas_cost\<close> field and no \<^verbatim>\<open>returndata\<close> field, and its failed
  flag is true.  No node is assembled only when the record's action is not a call action
  (reading its fields raises \<^verbatim>\<open>AttributeError\<close>) or when a child raises.
\<close>

theorem failed_call_has_no_result_fields:
  assumes kind: "call_type root \<in> {CALL, DELEGATECALL, STATICCALL, CALLCODE}"
    and err: "error root \<noteq> None"
    and res: "result root = None"
    and ov: "''gas_cost'' \<notin> fst ` set root_kwargs" "''returndata'' \<notin> fst ` set root_kwargs"
            "''failed'' \<notin> fst ` set root_kwargs"
  shows "case get_calltree_from_parity_trace traces (Some root) root_kwargs of
           Inr node \<Rightarrow> field node ''gas_cost'' = None \<and> field node ''returndata'' = None
                     \<and> field node ''failed'' = Some (PyBool True)
         | Inl e \<Rightarrow> (e = AttributeError \<and> (\<forall>g i r s v c. action root \<noteq> CallAction g i r s v c))
                  \<or> (\<exists>sub \<in> set (subtraces_of traces root).
                        get_calltree_from_parity_trace traces (Some sub) [] = Inl e)"
proof (cases "get_calltree_from_parity_trace traces (Some root) root_kwargs")
  case (Inl e)
  have "node_kwargs_of root = Inl e \<Longrightarrow>
        e = AttributeError \<and> (\<forall>g i r s v c. action root \<noteq> CallAction g i r s v c)"
    by (rule node_kwargs_call_family_error [OF kind res])
  with get_calltree_Inl [OF Inl] Inl show ?thesis by auto
next
  case (Inr node)
  from get_calltree_Inr [OF Inr] obtain nk calls where
    nk: "node_kwargs_of root = Inr nk" and
    node: "node = CallTreeNode (dict_update (AList.update ''calls'' (PyNodes calls) nk) root_kwargs)"
    by blast
  have same: "field node k = map_of nk k" if "k \<notin> fst ` set root_kwargs" "k \<noteq> ''calls''" for k
    unfolding node field_def using that
    by (simp add: map_of_dict_update_absent map_of_with_calls)
  have "field node ''gas_cost'' = None" "field node ''returndata'' = None"
    using node_kwargs_call_no_result [OF kind res nk] ov by (simp_all add: same)
  moreover have "field node ''failed'' = Some (PyBool True)"
    using node_kwargs_failed [OF nk] err ov by (simp add: same)
  ultimately show ?thesis using Inr by simp
qed

theorem failed_call_has_no_result_fields_witness:
  "call_type scenario_child \<in> {CALL, DELEGATECALL, STATICCALL, CALLCODE}
   \<and> error scenario_child \<noteq> None
   \<and> result scenario_child = None
   \<and> ''gas_cost'' \<notin> fst ` set ([] :: kwargs)
   \<and> ''returndata'' \<notin> fst ` set ([] :: kwargs)
   \<and> ''failed'' \<notin> fst ` set ([] :: kwargs)
   \<and> get_calltree_from_parity_trace scenario_traces (Some scenario_child) [] = Inr child_node
   \<and> field child_node ''gas_cost'' = None
   \<and> field child_node ''returndata'' = None
   \<and> field child_node ''failed'' = Some (PyBool True)"
proof -
  have kind: "call_type scenario_child \<in> {CALL, DELEGATECALL, STATICCALL, CALLCODE}"
    and err: "error scenario_child \<noteq> None"
    and res: "result scenario_child = None"
    by (simp_all add: scenario_child_def)
  have ov: "''gas_cost'' \<notin> fst ` set ([] :: kwargs)" "''returndata'' \<notin> fst ` set ([] :: kwargs)"
    "''failed'' \<notin> fst ` set ([] :: kwargs)"
    by simp_all
  from failed_call_has_no_result_fields [OF kind err res ov, where traces = scenario_traces]
  show ?thesis
    using kind err res by (simp add: scenario_assembled)
qed

text \<open>
  Claim C9.  The overrides are merged into the computed fields last.  With the node
  assembled without overrides as the computed node: when the computation raises, so does
  the assembly with overrides; otherwise the assembly with overrides returns a node in
  which every field that the overrides name has the overrides' value and every other
  field is as computed, present or absent.  The overrides are a dictionary, so their keys
  are distinct.
\<close>

theorem overrides_applied_last:
  assumes "distinct (map fst root_kwargs)"
  shows "case get_calltree_from_parity_trace traces root [] of
           Inl e \<Rightarrow> get_calltree_from_parity_trace traces root root_kwargs = Inl e
         | Inr computed \<Rightarrow>
             (\<exists>node. get_calltree_from_parity_trace traces root root_kwargs = Inr node
                \<and> (\<forall>k. field node k =
                          (case map_of root_kwargs k of
                             Some v \<Rightarrow> Some v
                           | None \<Rightarrow> field computed k)))"
proof (cases "get_calltree_from_parity_trace traces root []")
  case (Inl e)
  then show ?thesis by (simp add: get_calltree_overrides [of traces root root_kwargs])
next
  case (Inr computed)
  then have "get_calltree_from_parity_trace traces root root_kwargs =
      Inr (CallTreeNode (dict_update (fields_of computed) root_kwargs))"
    by (simp add: get_calltree_overrides [of traces root root_kwargs])
  moreover have "field (CallTreeNode (dict_update (fields_of computed) root_kwargs)) k =
      (case map_of root_kwargs k of Some v \<Rightarrow> Some v | None \<Rightarrow> field computed k)" for k
    by (simp add: field_def map_of_dict_update [OF assms] split: option.splits)
  ultimately show ?thesis using Inr by simp
qed

theorem overrides_applied_last_witness:
  "distinct (map fst [(''failed'', PyBool True), (''depth'', PyInt 3)])
   \<and> error scenario_root = None
   \<and> result_field (get_calltree_from_parity_trace scenario_traces (Some scenario_root) [])
        ''failed'' = Some (PyBool False)
   \<and> result_field (get_calltree_from_parity_trace scenario_traces (Some scenario_root)
                     [(''failed'', PyBool True), (''depth'', PyInt 3)])
        ''failed'' = Some (PyBool True)
   \<and> result_field (get_calltree_from_parity_trace scenario_traces (Some scenario_root)
                     [(''failed'', PyBool True), (''depth'', PyInt 3)])
        ''depth'' = Some (PyInt 3)
   \<and> result_field (get_calltree_from_parity_trace scenario_traces (Some scenario_root)
                     [(''failed'', PyBool True), (''depth'', PyInt 3)])
        ''gas_cost'' = Some (PyInt 1)"
proof -
  have keys: "distinct (map fst [(''failed'', PyBool True), (''depth'', PyInt 3)])"
    by simp
  from overrides_applied_last [OF keys, where traces = scenario_traces and root = "Some scenario_root"]
  obtain node where
    node: "get_calltree_from_parity_trace scenario_traces (Some scenario_root)
             [(''failed'', PyBool True), (''depth'', PyInt 3)] = Inr node"
    and merged: "\<And>k. field node k =
           (case map_of [(''failed'', PyBool True), (''depth'', PyInt 3)] k of
              Some v \<Rightarrow> Some v
            | None \<Rightarrow> field root_node k)"
    by (auto simp: scenario_assembled)
  have "field node ''failed'' = Some (PyBool True)" "field node ''depth'' = Some (PyInt 3)"
    "field node ''gas_cost'' = Some (PyInt 1)"
    unfolding merged by (simp_all add: field_def root_node_def)
  moreover have "field root_node ''failed'' = Some (PyBool False)"
    by (simp add: field_def root_node_def)
  moreover have "error scenario_root = None"
    by (simp add: scenario_root_def)
  ultimately show ?thesis
    using keys by (simp add: node scenario_assembled result_field_def)
qed

text \<open>
  Claim C10.  Let two records \<open>a\<close> and \<open>b\<close> of the record list have the same address, and
  let that address make them children of the root.  Then both are among the root's child
  records, in the order of the list; the child records of \<open>a\<close> are the child records of
  \<open>b\<close>; and, when no override names \<^verbatim>\<open>calls\<close>, the node's children are the nodes
  assembled from the child records, \<open>a\<close> and \<open>b\<close> included, one for each.  No error is
  raised for the repeated address: an assembly raises only when the projection of the
  root's fields or a child raises, and when the projection of the fields succeeds for the
  root and for every record of the list, the assembly returns a node, \<open>a\<close> and \<open>b\<close> are
  each assembled into a node, and these two nodes have the same children.
\<close>

theorem duplicate_addresses_kept:
  assumes dup: "trace_address a = trace_address b"
    and child: "length (trace_address a) = length (trace_address root) + 1"
               "butlast (trace_address a) = trace_address root"
    and ov: "''calls'' \<notin> fst ` set root_kwargs"
  shows "subtraces_of (xs @ a # ys @ b # zs) root =
           subtraces_of xs root @ a # subtraces_of ys root @ b # subtraces_of zs root
       \<and> subtraces_of (xs @ a # ys @ b # zs) a = subtraces_of (xs @ a # ys @ b # zs) b
       \<and> (case get_calltree_from_parity_trace (xs @ a # ys @ b # zs) (Some root) root_kwargs of
            Inr node \<Rightarrow>
              (\<exists>calls. field node ''calls'' = Some (PyNodes calls)
                 \<and> map Inr calls =
                     map (\<lambda>sub. get_calltree_from_parity_trace (xs @ a # ys @ b # zs) (Some sub) [])
                       (subtraces_of xs root @ a # subtraces_of ys root @ b # subtraces_of zs root))
          | Inl e \<Rightarrow> node_kwargs_of root = Inl e
                   \<or> (\<exists>sub \<in> set (subtraces_of (xs @ a # ys @ b # zs) root).
                         get_calltree_from_parity_trace (xs @ a # ys @ b # zs) (Some sub) [] = Inl e))
       \<and> ((\<forall>t \<in> set (root # xs @ a # ys @ b # zs). \<exists>nk. node_kwargs_of t = Inr nk) \<longrightarrow>
            (\<exists>node node_a node_b calls.
                get_calltree_from_parity_trace (xs @ a # ys @ b # zs) (Some root) root_kwargs
                  = Inr node
              \<and> get_calltree_from_parity_trace (xs @ a # ys @ b # zs) (Some a) [] = Inr node_a
              \<and> get_calltree_from_parity_trace (xs @ a # ys @ b # zs) (Some b) [] = Inr node_b
              \<and> field node_a ''calls'' = Some (PyNodes calls)
              \<and> field node_b ''calls'' = Some (PyNodes calls)))"
proof -
  let ?traces = "xs @ a # ys @ b # zs"
  have split: "subtraces_of ?traces root =
      subtraces_of xs root @ a # subtraces_of ys root @ b # subtraces_of zs root"
    using dup child by (simp add: subtraces_of_def)
  have same: "subtraces_of ?traces a = subtraces_of ?traces b"
    using dup by (rule subtraces_of_same_address)
  have tree: "case get_calltree_from_parity_trace ?traces (Some root) root_kwargs of
      Inr node \<Rightarrow>
        (\<exists>calls. field node ''calls'' = Some (PyNodes calls)
           \<and> map Inr calls =
               map (\<lambda>sub. get_calltree_from_parity_trace ?traces (Some sub) [])
                 (subtraces_of xs root @ a # subtraces_of ys root @ b # subtraces_of zs root))
    | Inl e \<Rightarrow> node_kwargs_of root = Inl e
             \<or> (\<exists>sub \<in> set (subtraces_of ?traces root).
                   get_calltree_from_parity_trace ?traces (Some sub) [] = Inl e)"
  proof (cases "get_calltree_from_parity_trace ?traces (Some root) root_kwargs")
    case (Inl e)
    then show ?thesis using get_calltree_Inl [OF Inl] by simp
  next
    case (Inr node)
    from get_calltree_Inr [OF Inr] obtain nk calls where
      calls: "map Inr calls = map (\<lambda>sub. get_calltree_from_parity_trace ?traces (Some sub) [])
                                 (subtraces_of ?traces root)" and
      node: "node = CallTreeNode (dict_update (AList.update ''calls'' (PyNodes calls) nk) root_kwargs)"
      by blast
    have "field node ''calls'' = Some (PyNodes calls)"
      unfolding node field_def using ov
      by (simp add: map_of_dict_update_absent update_conv')
    with calls Inr show ?thesis unfolding split by auto
  qed
  have returns: "\<exists>node node_a node_b calls.
        get_calltree_from_parity_trace ?traces (Some root) root_kwargs = Inr node
      \<and> get_calltree_from_parity_trace ?traces (Some a) [] = Inr node_a
      \<and> get_calltree_from_parity_trace ?traces (Some b) [] = Inr node_b
      \<and> field node_a ''calls'' = Some (PyNodes calls)
      \<and> field node_b ''calls'' = Some (PyNodes calls)"
    if proj: "\<forall>t \<in> set (root # ?traces). \<exists>nk. node_kwargs_of t = Inr nk"
  proof -
    from proj have all: "\<And>t. t \<in> set ?traces \<Longrightarrow> \<exists>nk. node_kwargs_of t = Inr nk"
      and r: "\<exists>nk. node_kwargs_of root = Inr nk"
      by auto
    from all have pa: "\<exists>nk. node_kwargs_of a = Inr nk" and pb: "\<exists>nk. node_kwargs_of b = Inr nk"
      by auto
    from get_calltree_returns [OF all r] obtain node where
      node: "get_calltree_from_parity_trace ?traces (Some root) root_kwargs = Inr node"
      by blast
    from get_calltree_returns [OF all pa] obtain node_a where
      na: "get_calltree_from_parity_trace ?traces (Some a) [] = Inr node_a"
      by blast
    from get_calltree_returns [OF all pb] obtain node_b where
      nb: "get_calltree_from_parity_trace ?traces (Some b) [] = Inr node_b"
      by blast
    from get_calltree_Inr [OF na] obtain nka ca where
      ca: "map Inr ca = map (\<lambda>sub. get_calltree_from_parity_trace ?traces (Some sub) [])
                          (subtraces_of ?traces a)" and
      node_a: "node_a = CallTreeNode (dict_update (AList.update ''calls'' (PyNodes ca) nka) [])"
      by blast
    from get_calltree_Inr [OF nb] obtain nkb cb where
      cb: "map Inr cb = map (\<lambda>sub. get_calltree_from_parity_trace ?traces (Some sub) [])
                          (subtraces_of ?traces b)" and
      node_b: "node_b = CallTreeNode (dict_update (AList.update ''calls'' (PyNodes cb) nkb) [])"
      by blast
    from ca cb same have "map Inr ca = (map Inr cb :: (exn + CallTreeNode) list)"
      by simp
    then have eq: "ca = cb"
      by (simp add: inj_map_eq_map)
    have "field node_a ''calls'' = Some (PyNodes ca)" "field node_b ''calls'' = Some (PyNodes cb)"
      unfolding node_a node_b field_def
      by (simp_all add: dict_update_Nil update_conv')
    with node na nb eq show ?thesis by blast
  qed
  from split same tree returns show ?thesis by blast
qed

theorem duplicate_addresses_kept_witness:
  "trace_address scenario_child = trace_address scenario_twin
   \<and> length (trace_address scenario_child) = length (trace_address scenario_root) + 1
   \<and> butlast (trace_address scenario_child) = trace_address scenario_root
   \<and> ''calls'' \<notin> fst ` set ([] :: kwargs)
   \<and> scenario_traces =
       [scenario_root, scenario_sibling] @ scenario_child # [] @ scenario_twin # [scenario_grandchild]
   \<and> (\<exists>nk. node_kwargs_of scenario_root = Inr nk)
   \<and> (\<exists>nk. node_kwargs_of scenario_sibling = Inr nk)
   \<and> (\<exists>nk. node_kwargs_of scenario_child = Inr nk)
   \<and> (\<exists>nk. node_kwargs_of scenario_twin = Inr nk)
   \<and> (\<exists>nk. node_kwargs_of scenario_grandchild = Inr nk)
   \<and> subtraces_of scenario_traces scenario_root = [scenario_sibling, scenario_child, scenario_twin]
   \<and> subtraces_of scenario_traces scenario_child = [scenario_grandchild]
   \<and> subtraces_of scenario_traces scenario_twin = [scenario_grandchild]
   \<and> result_field (get_calltree_from_parity_trace scenario_traces (Some scenario_root) [])
        ''calls'' = Some (PyNodes [sibling_node, child_node, twin_node])
   \<and> field child_node ''calls'' = Some (PyNodes [grandchild_node])
   \<and> field twin_node ''calls'' = Some (PyNodes [grandchild_node])"
proof -
  have dup: "trace_address scenario_child = trace_address scenario_twin"
    and child: "length (trace_address scenario_child) = length (trace_address scenario_root) + 1"
      "butlast (trace_address scenario_child) = trace_address scenario_root"
    by (simp_all add: scenario_child_def scenario_twin_def scenario_root_def)
  have ov: "''calls'' \<notin> fst ` set ([] :: kwargs)" by simp
  have traces: "scenario_traces =
      [scenario_root, scenario_sibling] @ scenario_child # [] @ scenario_twin # [scenario_grandchild]"
    by (simp add: scenario_traces_def)
  have parts: "subtraces_of [scenario_root, scenario_sibling] scenario_root = [scenario_sibling]"
    "subtraces_of [] scenario_root = []"
    "subtraces_of [scenario_grandchild] scenario_root = []"
    "subtraces_of scenario_traces scenario_child = [scenario_grandchild]"
    by (simp_all add: subtraces_of_def scenario_traces_def scenario_root_def scenario_sibling_def
          scenario_child_def scenario_twin_def scenario_grandchild_def)
  have each: "\<exists>nk. node_kwargs_of scenario_root = Inr nk"
    "\<exists>nk. node_kwargs_of scenario_sibling = Inr nk"
    "\<exists>nk. node_kwargs_of scenario_child = Inr nk" "\<exists>nk. node_kwargs_of scenario_twin = Inr nk"
    "\<exists>nk. node_kwargs_of scenario_grandchild = Inr nk"
    by (simp_all add: node_kwargs_of_def ebind_def scenario_root_def scenario_sibling_def
          scenario_child_def scenario_twin_def scenario_grandchild_def)
  then have proj: "\<forall>t \<in> set (scenario_root # scenario_traces). \<exists>nk. node_kwargs_of t = Inr nk"
    by (simp add: scenario_traces_def)
  note inst = duplicate_addresses_kept [OF dup child ov,
      where xs = "[scenario_root, scenario_sibling]" and ys = "[]" and zs = "[scenario_grandchild]",
      folded traces]
  from inst have kept: "subtraces_of scenario_traces scenario_root =
      [scenario_sibling, scenario_child, scenario_twin]"
    and same: "subtraces_of scenario_traces scenario_child =
      subtraces_of scenario_traces scenario_twin"
    by (simp_all add: parts)
  from inst proj obtain node_a node_b calls where
    "get_calltree_from_parity_trace scenario_traces (Some scenario_child) [] = Inr node_a"
    "get_calltree_from_parity_trace scenario_traces (Some scenario_twin) [] = Inr node_b"
    "field node_a ''calls'' = Some (PyNodes calls)" "field node_b ''calls'' = Some (PyNodes calls)"
    by blast
  then have both: "field child_node ''calls'' = field twin_node ''calls''"
    by (simp add: scenario_assembled)
  have "field root_node ''calls'' = Some (PyNodes [sibling_node, child_node, twin_node])"
    "field child_node ''calls'' = Some (PyNodes [grandchild_node])"
    by (simp_all add: field_def root_node_def child_node_def)
  with dup child ov traces each kept same parts(4) both show ?thesis
    by (simp add: scenario_assembled result_field_def)
qed

section \<open>Claims about the validators\<close>

lemma CallType_of_member:
  "t \<in> set (CallType_tags others) \<Longrightarrow> \<exists>k. CallType_of others t = Inr k"
  by (auto simp: CallType_of_def CallType_tags_def)

lemma CallType_of_no_member:
  "t \<notin> set (CallType_tags others) \<Longrightarrow> CallType_of others t = Inl ValueError"
  by (auto simp: CallType_of_def CallType_tags_def)

lemma CallType_of_tag: "CallType_of others t = Inr k \<Longrightarrow> tag_of k = t"
  by (auto simp: CallType_of_def split: if_splits)

lemma normalize_kind_spec_eq:
  "normalize_kind_spec others tag =
     CallType_of others (if upper tag = ''SUICIDE'' then ''SELFDESTRUCT'' else upper tag)"
  unfolding normalize_kind_spec_def Let_def
  using CallType_of_no_member by auto

lemma normalize_kind_spec_SELFDESTRUCT:
  "upper tag = ''SUICIDE'' \<Longrightarrow> normalize_kind_spec others tag = Inr SELFDESTRUCT"
  by (simp add: normalize_kind_spec_eq CallType_of_def)

text \<open>
  Claim C3.  For a record whose decoded action is a call action, the kind that the
  validator returns is the normalization of the action's own kind field, and the raw
  value of the record's outer kind field has no effect on it.
\<close>

theorem call_action_kind_overrides_outer_kind:
  "convert_call_type others outer (CallAction g i r s v c) = normalize_kind_spec others c
   \<and> convert_call_type others outer (CallAction g i r s v c) =
       convert_call_type others outer' (CallAction g i r s v c)"
  by (simp add: convert_call_type_def normalize_kind_spec_eq Let_def)

theorem call_action_kind_overrides_outer_kind_witness:
  "convert_call_type [] (RStr ''create'') (CallAction 1 None None ''0xA'' 0 ''delegatecall'')
     = Inr DELEGATECALL
   \<and> convert_call_type [] RNone (CallAction 1 None None ''0xA'' 0 ''delegatecall'')
     = Inr DELEGATECALL
   \<and> normalize_kind_spec [] ''delegatecall'' = Inr DELEGATECALL"
proof -
  have "normalize_kind_spec [] ''delegatecall'' = Inr DELEGATECALL"
    by code_simp
  with call_action_kind_overrides_outer_kind
         [of "[]" "RStr ''create''" 1 None None "''0xA''" 0 "''delegatecall''" RNone]
  show ?thesis by auto
qed

text \<open>
  Claim C7.  For a record whose action is not a call action and whose outer kind is a
  text, the validator returns the kind normalization of the text: the text in upper
  case, with SUICIDE replaced by SELFDESTRUCT, looked up in the enumeration.  The
  normalization raises \<^verbatim>\<open>ValueError\<close> exactly when the resulting tag is not a tag of the
  enumeration, and otherwise returns the member with that tag.  The texts \<^verbatim>\<open>suicide\<close>,
  \<^verbatim>\<open>Suicide\<close> and \<^verbatim>\<open>SUICIDE\<close> all give SELFDESTRUCT.
\<close>

theorem kind_normalization:
  "convert_call_type others (RStr tag) (CreateAction g i v) = normalize_kind_spec others tag
   \<and> convert_call_type others (RStr tag) (SelfDestructAction a b) = normalize_kind_spec others tag
   \<and> (normalize_kind_spec others tag = Inl ValueError
        \<longleftrightarrow> (if upper tag = ''SUICIDE'' then ''SELFDESTRUCT'' else upper tag)
              \<notin> set (CallType_tags others))
   \<and> (\<forall>k. normalize_kind_spec others tag = Inr k
          \<longrightarrow> tag_of k = (if upper tag = ''SUICIDE'' then ''SELFDESTRUCT'' else upper tag))
   \<and> normalize_kind_spec others ''suicide'' = Inr SELFDESTRUCT
   \<and> normalize_kind_spec others ''Suicide'' = Inr SELFDESTRUCT
   \<and> normalize_kind_spec others ''SUICIDE'' = Inr SELFDESTRUCT"
proof -
  let ?t = "if upper tag = ''SUICIDE'' then ''SELFDESTRUCT'' else upper tag"
  have conv: "convert_call_type others (RStr tag) (CreateAction g i v) = normalize_kind_spec others tag"
    "convert_call_type others (RStr tag) (SelfDestructAction a b) = normalize_kind_spec others tag"
    by (simp_all add: convert_call_type_def normalize_kind_spec_eq Let_def)
  have fails: "normalize_kind_spec others tag = Inl ValueError \<longleftrightarrow> ?t \<notin> set (CallType_tags others)"
  proof
    assume "normalize_kind_spec others tag = Inl ValueError"
    then have "CallType_of others ?t = Inl ValueError"
      by (simp only: normalize_kind_spec_eq)
    with CallType_of_member [of ?t others] show "?t \<notin> set (CallType_tags others)"
      by auto
  next
    assume "?t \<notin> set (CallType_tags others)"
    from CallType_of_no_member [OF this] show "normalize_kind_spec others tag = Inl ValueError"
      by (simp only: normalize_kind_spec_eq)
  qed
  have tag: "\<forall>k. normalize_kind_spec others tag = Inr k \<longrightarrow> tag_of k = ?t"
    using CallType_of_tag [of others ?t] by (simp only: normalize_kind_spec_eq) blast
  have "upper ''suicide'' = ''SUICIDE''" "upper ''Suicide'' = ''SUICIDE''"
    "upper ''SUICIDE'' = ''SUICIDE''"
    by (simp_all add: upper_def upper_char_def)
  then have suicide: "normalize_kind_spec others ''suicide'' = Inr SELFDESTRUCT"
    "normalize_kind_spec others ''Suicide'' = Inr SELFDESTRUCT"
    "normalize_kind_spec others ''SUICIDE'' = Inr SELFDESTRUCT"
    by (simp_all add: normalize_kind_spec_SELFDESTRUCT)
  from conv fails tag suicide show ?thesis by blast
qed

theorem kind_normalization_witness:
  "convert_call_type [''CREATE2''] (RStr ''Suicide'') (SelfDestructAction ''0xF'' 9)
     = Inr SELFDESTRUCT
   \<and> convert_call_type [''CREATE2''] (RStr ''create2'') (CreateAction 1 ''0x60'' 0)
     = Inr (OTHER ''CREATE2'')
   \<and> tag_of (OTHER ''CREATE2'') = upper ''create2''
   \<and> upper ''reward'' \<notin> set (CallType_tags [''CREATE2''])
   \<and> convert_call_type [''CREATE2''] (RStr ''reward'') (SelfDestructAction ''0xF'' 9)
     = Inl ValueError"
proof -
  have up: "upper ''reward'' = ''REWARD''" "upper ''create2'' = ''CREATE2''"
    "upper ''Suicide'' = ''SUICIDE''"
    by (simp_all add: upper_def upper_char_def)
  have created: "normalize_kind_spec [''CREATE2''] ''create2'' = Inr (OTHER ''CREATE2'')"
    by code_simp
  have unknown: "upper ''reward'' \<notin> set (CallType_tags [''CREATE2''])"
    by (simp add: up CallType_tags_def)
  from kind_normalization [of "[''CREATE2'']" "''Suicide''" 1 "''0x60''" 0 "''0xF''" 9]
    kind_normalization [of "[''CREATE2'']" "''create2''" 1 "''0x60''" 0 "''0xF''" 9]
    kind_normalization [of "[''CREATE2'']" "''reward''" 1 "''0x60''" 0 "''0xF''" 9]
  show ?thesis
    using created unknown by (simp add: up)
qed




text \<open>
  Claim C5, as the code has it.  A numeric validator that returns, returns an integer;
  the integer is non-negative unless the input denotes a negative value (a text whose
  first character after the white space is the minus sign, a negative integer or a
  negative float), and then it is not positive.  An input that denotes a negative value
  is not refused for that reason: every base-16 numeral, signed or not, is decoded to
  the number it denotes by all four validators, and every integer is returned as it is
  by the validators of \<^verbatim>\<open>balance\<close> and \<^verbatim>\<open>gas_used\<close>.  The text \<^verbatim>\<open>-0x1a\<close>, also with a
  no-break space in front, decodes to -26 in all four validators; the integer -26 and
  the float -26.9 decode to -26 in the validators of \<^verbatim>\<open>balance\<close> and \<^verbatim>\<open>gas_used\<close>.
\<close>

theorem decoded_sign_follows_input:
  "(CallAction_convert_integer v = Inr n \<or> CreateAction_convert_integer v = Inr n
      \<or> SelfDestructAction_convert_integer v = Inr n \<or> ActionResult_convert_integer v = Inr n
      \<longrightarrow> (if denotes_negative v then n \<le> 0 else 0 \<le> n))
   \<and> (is_hex_numeral s \<longrightarrow>
         CallAction_convert_integer (RStr s) = Inr (numeral_value s)
       \<and> CreateAction_convert_integer (RStr s) = Inr (numeral_value s)
       \<and> SelfDestructAction_convert_integer (RStr s) = Inr (numeral_value s)
       \<and> ActionResult_convert_integer (RStr s) = Inr (numeral_value s))
   \<and> SelfDestructAction_convert_integer (RInt i) = Inr i
   \<and> ActionResult_convert_integer (RInt i) = Inr i
   \<and> CallAction_convert_integer (RStr ''-0x1a'') = Inr (- 26)
   \<and> CreateAction_convert_integer (RStr ''-0x1a'') = Inr (- 26)
   \<and> SelfDestructAction_convert_integer (RStr ''-0x1a'') = Inr (- 26)
   \<and> ActionResult_convert_integer (RStr ''-0x1a'') = Inr (- 26)
   \<and> CallAction_convert_integer (RStr (CHR 0xA0 # ''-0x1a'')) = Inr (- 26)
   \<and> CreateAction_convert_integer (RStr (CHR 0xA0 # ''-0x1a'')) = Inr (- 26)
   \<and> SelfDestructAction_convert_integer (RStr (CHR 0xA0 # ''-0x1a'')) = Inr (- 26)
   \<and> ActionResult_convert_integer (RStr (CHR 0xA0 # ''-0x1a'')) = Inr (- 26)
   \<and> SelfDestructAction_convert_integer (RInt (- 26)) = Inr (- 26)
   \<and> ActionResult_convert_integer (RInt (- 26)) = Inr (- 26)
   \<and> SelfDestructAction_convert_integer (RFloat (Finite (- 3785838436758323) (- 47))) = Inr (- 26)
   \<and> ActionResult_convert_integer (RFloat (Finite (- 3785838436758323) (- 47))) = Inr (- 26)"
proof -
  have sign: "if denotes_negative v then n \<le> 0 else 0 \<le> n"
    if "int16 v = Inr n \<or> (if isinstance_str v then int16 v else int_native v) = Inr n"
    using that int16_sign [of v n] int_native_sign [of v n]
    by (cases "isinstance_str v") auto
  have numeral: "is_hex_numeral s \<longrightarrow> int16 (RStr s) = Inr (numeral_value s)"
    by (simp add: int16_str_numeral)
  have neg: "int16_str ''-0x1a'' = Inr (- 26)" "int16_str (CHR 0xA0 # ''-0x1a'') = Inr (- 26)"
    by (simp_all add: int16_str_def py_isspace_def hex_digit_def)
  have flt: "float_trunc (- 3785838436758323) (- 47) = - 26"
    by (simp add: float_trunc_def)
  from sign numeral neg flt show ?thesis
    unfolding CallAction_convert_integer_def CreateAction_convert_integer_def
      SelfDestructAction_convert_integer_def ActionResult_convert_integer_def
    by auto
qed

theorem decoded_sign_follows_input_witness:
  "CallAction_convert_integer (RStr ''0x1a'') = Inr 26
   \<and> \<not> denotes_negative (RStr ''0x1a'') \<and> (0::int) \<le> 26
   \<and> ActionResult_convert_integer (RInt (- 26)) = Inr (- 26)
   \<and> denotes_negative (RInt (- 26)) \<and> (- 26 :: int) \<le> 0
   \<and> is_hex_numeral '' -1_a  ''
   \<and> numeral_value '' -1_a  '' = - 26
   \<and> denotes_negative (RStr '' -1_a  '')
   \<and> SelfDestructAction_convert_integer (RStr '' -1_a  '') = Inr (- 26)"
proof -
  have pos: "CallAction_convert_integer (RStr ''0x1a'') = Inr 26"
    by (simp add: CallAction_convert_integer_def int16_str_def py_isspace_def hex_digit_def)
  have neg: "ActionResult_convert_integer (RInt (- 26)) = Inr (- 26)"
    by (simp add: ActionResult_convert_integer_def)
  have num: "is_hex_numeral '' -1_a  ''" "numeral_value '' -1_a  '' = - 26"
    by (simp_all add: is_hex_numeral_def numeral_value_def numeral_body_def strip_def rstrip_def
          unsigned_def unmarked_def py_isspace_def is_hex_digit_def hex_digit_def hex_value_def)
  from decoded_sign_follows_input [of "RStr ''0x1a''" 26 "'' -1_a  ''"]
    decoded_sign_follows_input [of "RInt (- 26)" "- 26" "'' -1_a  ''"] pos neg num
  show ?thesis by (simp add: py_isspace_def)
qed

text \<open>
  Claim C5 as the specification states it fails on the text \<^verbatim>\<open>-0x1a\<close> and on the integer
  -26: the validators do not raise, they return the negative integer -26.
\<close>

theorem negative_input_counterexample:
  "CallAction_convert_integer (RStr ''-0x1a'') = Inr (- 26)
   \<and> SelfDestructAction_convert_integer (RInt (- 26)) = Inr (- 26)
   \<and> \<not> (0::int) \<le> - 26"
  by (simp add: CallAction_convert_integer_def SelfDestructAction_convert_integer_def
        int16_str_def py_isspace_def hex_digit_def)

text \<open>
  Claim C6, as the code has it.  The validators of \<^verbatim>\<open>balance\<close> and \<^verbatim>\<open>gas_used\<close> parse a
  text as a base-16 numeral: a text that is one decodes to the number it denotes, any
  other text raises \<^verbatim>\<open>ValueError\<close>.  An input that is not text is cast directly to an
  integer: an integer is returned as it is, a boolean gives 0 or 1, a finite float is
  truncated towards zero, an infinity raises \<^verbatim>\<open>OverflowError\<close>, not-a-number raises
  \<^verbatim>\<open>ValueError\<close>, and \<^verbatim>\<open>None\<close>, a list and a dictionary raise \<^verbatim>\<open>TypeError\<close>.  The text
  \<^verbatim>\<open>0x1a\<close> decodes to 26; the text \<^verbatim>\<open>26\<close> decodes to 38, not to 26; the integer 26 and
  the float 26.9 decode to 26.
\<close>

theorem hex_or_native_fields:
  "SelfDestructAction_convert_integer (RStr s) =
     (if is_hex_numeral s then Inr (numeral_value s) else Inl ValueError)
   \<and> ActionResult_convert_integer (RStr s) =
       (if is_hex_numeral s then Inr (numeral_value s) else Inl ValueError)
   \<and> (d \<noteq> [] \<and> list_all is_hex_digit d \<longrightarrow>
         SelfDestructAction_convert_integer (RStr d) = Inr (hex_value d)
       \<and> ActionResult_convert_integer (RStr d) = Inr (hex_value d))
   \<and> SelfDestructAction_convert_integer (RInt i) = Inr i
   \<and> ActionResult_convert_integer (RInt i) = Inr i
   \<and> SelfDestructAction_convert_integer (RBool b) = Inr (if b then 1 else 0)
   \<and> ActionResult_convert_integer (RBool b) = Inr (if b then 1 else 0)
   \<and> (\<exists>n. SelfDestructAction_convert_integer (RFloat (Finite m e)) = Inr n
          \<and> ActionResult_convert_integer (RFloat (Finite m e)) = Inr n
          \<and> (0 \<le> e \<longrightarrow> n = m * 2 ^ nat e)
          \<and> (e < 0 \<longrightarrow> \<bar>n\<bar> * 2 ^ nat (- e) \<le> \<bar>m\<bar> \<and> \<bar>m\<bar> < (\<bar>n\<bar> + 1) * 2 ^ nat (- e))
          \<and> (m < 0 \<longrightarrow> n \<le> 0) \<and> (0 \<le> m \<longrightarrow> 0 \<le> n))
   \<and> SelfDestructAction_convert_integer (RFloat (Infinity negative)) = Inl OverflowError
   \<and> ActionResult_convert_integer (RFloat (Infinity negative)) = Inl OverflowError
   \<and> SelfDestructAction_convert_integer (RFloat NaN) = Inl ValueError
   \<and> ActionResult_convert_integer (RFloat NaN) = Inl ValueError
   \<and> SelfDestructAction_convert_integer RNone = Inl TypeError
   \<and> ActionResult_convert_integer RNone = Inl TypeError
   \<and> SelfDestructAction_convert_integer (RList xs) = Inl TypeError
   \<and> ActionResult_convert_integer (RList xs) = Inl TypeError
   \<and> SelfDestructAction_convert_integer (RDict kvs) = Inl TypeError
   \<and> ActionResult_convert_integer (RDict kvs) = Inl TypeError
   \<and> SelfDestructAction_convert_integer (RStr ''0x1a'') = Inr 26
   \<and> ActionResult_convert_integer (RStr ''0x1a'') = Inr 26
   \<and> SelfDestructAction_convert_integer (RStr ''26'') = Inr 38
   \<and> ActionResult_convert_integer (RStr ''26'') = Inr 38
   \<and> SelfDestructAction_convert_integer (RInt 26) = Inr 26
   \<and> ActionResult_convert_integer (RInt 26) = Inr 26
   \<and> SelfDestructAction_convert_integer (RFloat (Finite 3785838436758323 (- 47))) = Inr 26
   \<and> ActionResult_convert_integer (RFloat (Finite 3785838436758323 (- 47))) = Inr 26
   \<and> SelfDestructAction_convert_integer (RStr ''0123456789abcdefABCDEF'') = Inr 1375488932539311409843695
   \<and> ActionResult_convert_integer (RStr ''0123456789abcdefABCDEF'') = Inr 1375488932539311409843695
   \<and> SelfDestructAction_convert_integer
         (RStr ([CHR 0x09, CHR 0x0A, CHR 0x0B, CHR 0x0C, CHR 0x0D, CHR '' '', CHR 0x85, CHR 0xA0]
                @ ''-0x_1A''
                @ [CHR 0x09, CHR 0x0A, CHR 0x0B, CHR 0x0C, CHR 0x0D, CHR '' '', CHR 0x85, CHR 0xA0]))
       = Inr (- 26)
   \<and> ActionResult_convert_integer
         (RStr ([CHR 0x09, CHR 0x0A, CHR 0x0B, CHR 0x0C, CHR 0x0D, CHR '' '', CHR 0x85, CHR 0xA0]
                @ ''-0x_1A''
                @ [CHR 0x09, CHR 0x0A, CHR 0x0B, CHR 0x0C, CHR 0x0D, CHR '' '', CHR 0x85, CHR 0xA0]))
       = Inr (- 26)"
proof -
  have parsed: "int16_str s = (if is_hex_numeral s then Inr (numeral_value s) else Inl ValueError)"
    by (rule int16_str_numeral)
  have digits: "d \<noteq> [] \<and> list_all is_hex_digit d \<longrightarrow> int16_str d = Inr (hex_value d)"
    by (simp add: int16_str_hex_text)
  have float: "\<exists>n. float_trunc m e = n
      \<and> (0 \<le> e \<longrightarrow> n = m * 2 ^ nat e)
      \<and> (e < 0 \<longrightarrow> \<bar>n\<bar> * 2 ^ nat (- e) \<le> \<bar>m\<bar> \<and> \<bar>m\<bar> < (\<bar>n\<bar> + 1) * 2 ^ nat (- e))
      \<and> (m < 0 \<longrightarrow> n \<le> 0) \<and> (0 \<le> m \<longrightarrow> 0 \<le> n)"
    using float_trunc_sign [of m e] float_trunc_bounds [of e m]
    by (simp add: float_trunc_def)
  have examples: "int16_str ''0x1a'' = Inr 26" "int16_str ''26'' = Inr 38"
    "int16_str ''0123456789abcdefABCDEF'' = Inr 1375488932539311409843695"
    "int16_str ([CHR 0x09, CHR 0x0A, CHR 0x0B, CHR 0x0C, CHR 0x0D, CHR '' '', CHR 0x85, CHR 0xA0]
                @ ''-0x_1A''
                @ [CHR 0x09, CHR 0x0A, CHR 0x0B, CHR 0x0C, CHR 0x0D, CHR '' '', CHR 0x85, CHR 0xA0])
     = Inr (- 26)"
    by (simp_all add: int16_str_def py_isspace_def hex_digit_def)
  have flt: "float_trunc 3785838436758323 (- 47) = 26"
    by (simp add: float_trunc_def)
  from parsed digits float examples flt show ?thesis
    unfolding SelfDestructAction_convert_integer_def ActionResult_convert_integer_def
    by simp
qed

theorem hex_or_native_fields_witness:
  "''ff'' \<noteq> [] \<and> list_all is_hex_digit ''ff''
   \<and> hex_value ''ff'' = 255
   \<and> SelfDestructAction_convert_integer (RStr ''ff'') = Inr 255
   \<and> ActionResult_convert_integer (RStr ''ff'') = Inr 255
   \<and> ActionResult_convert_integer (RInt 255) = Inr 255
   \<and> (- 53 :: int) < 0 \<and> (- 1 :: int) < 0
   \<and> SelfDestructAction_convert_integer (RFloat (Finite (- 53) (- 1))) = Inr (- 26)
   \<and> ActionResult_convert_integer (RFloat (Finite (- 53) (- 1))) = Inr (- 26)
   \<and> \<not> is_hex_numeral ''0x''
   \<and> ActionResult_convert_integer (RStr ''0x'') = Inl ValueError"
proof -
  have digits: "''ff'' \<noteq> []" "list_all is_hex_digit ''ff''"
    by (simp_all add: is_hex_digit_def hex_digit_def)
  have val: "hex_value ''ff'' = 255"
    by (simp add: hex_value_def hex_digit_def)
  have refused: "\<not> is_hex_numeral ''0x''"
    by (simp add: is_hex_numeral_def numeral_body_def strip_def rstrip_def unsigned_def
          unmarked_def py_isspace_def)
  have flt: "SelfDestructAction_convert_integer (RFloat (Finite (- 53) (- 1))) = Inr (- 26)"
    "ActionResult_convert_integer (RFloat (Finite (- 53) (- 1))) = Inr (- 26)"
    by (simp_all add: SelfDestructAction_convert_integer_def ActionResult_convert_integer_def
          float_trunc_def)
  from hex_or_native_fields [of "''0x''" "''ff''" 255 True "- 53" "- 1"] digits val refused
  have "SelfDestructAction_convert_integer (RStr ''ff'') = Inr 255"
    "ActionResult_convert_integer (RStr ''ff'') = Inr 255"
    "ActionResult_convert_integer (RInt 255) = Inr 255"
    "ActionResult_convert_integer (RStr ''0x'') = Inl ValueError"
    by simp_all
  with digits val refused flt show ?thesis by simp
qed

text \<open>
  Claim C6 as the specification states it fails on the plain decimal text \<^verbatim>\<open>26\<close>: the
  validators of the hex-or-native fields return 38 for it, not 26.
\<close>

theorem hex_or_native_plain_text_counterexample:
  "SelfDestructAction_convert_integer (RStr ''26'') \<noteq> Inr 26
   \<and> ActionResult_convert_integer (RStr ''26'') \<noteq> Inr 26
   \<and> SelfDestructAction_convert_integer (RStr ''26'') = Inr 38
   \<and> ActionResult_convert_integer (RStr ''26'') = Inr 38"
  by (simp add: SelfDestructAction_convert_integer_def ActionResult_convert_integer_def
        int16_str_def py_isspace_def hex_digit_def)

end
